theory Spec2Isabelle
  imports Main
begin

section \<open>The keyboard focus tracker of \<open>utils/keyboardfocustracker\<close>\<close>

text \<open>
  The module holds two classes. \<open>GlobalKeyboardMouseInteractionTracker\<close> owns the
  document-level listeners and two observable flags; it keeps a static singleton slot
  \<open>_instance\<close> and a static counter \<open>_totalInstances\<close>. \<open>KeyboardFocusTracker\<close>
  derives the observable \<open>isFocusedUsingKeyboard\<close> from the flags of the global tracker
  it obtained in its constructor and from the change notifications of a focus tracker
  that its caller supplies.

  Objects live in a store and are named by their addresses, because several keyboard
  focus trackers share one global tracker and a destroyed tracker object stays
  reachable from the keyboard focus trackers that hold it.
\<close>

subsection \<open>Data\<close>

type_synonym element = nat
type_synonym tracker_ref = nat
type_synonym kft_ref = nat
type_synonym ft_ref = nat

text \<open>
  A listener of a change event of the global tracker is always one of the arrow
  functions \<open>_watchMouseMoved\<close>, \<open>_watchIsKeyPressed\<close> of some keyboard focus tracker,
  so a listener list is the list of the keyboard focus trackers whose callback is
  registered, in registration order.
\<close>

record GlobalKeyboardMouseInteractionTracker =
  isKeyPressed :: bool
  isMouseMoved :: bool
  on_isMouseMoved :: "kft_ref list"
  on_isKeyPressed :: "kft_ref list"

record KeyboardFocusTracker =
  isFocusedUsingKeyboard :: bool
  globalInteractionTracker :: tracker_ref
  focusTracker :: ft_ref

record FocusTracker =
  focusedElement :: "element option"
  isFocused :: bool
  blurTimeout :: bool
  on_focusedElement :: "kft_ref list"

text \<open>
  \<open>document\<close> lists the global trackers whose \<open>_domEmitter\<close> has its six capture
  listeners attached to \<open>global.document\<close>; the six are attached together by
  \<open>_mountDocumentListeners\<close> and detached together by \<open>_domEmitter.stopListening()\<close>.
\<close>

record System =
  static_instance :: "tracker_ref option"
  totalInstances :: int
  trackers :: "tracker_ref \<Rightarrow> GlobalKeyboardMouseInteractionTracker"
  nextTracker :: tracker_ref
  kfts :: "kft_ref \<Rightarrow> KeyboardFocusTracker"
  nextKft :: kft_ref
  focusTrackers :: "ft_ref \<Rightarrow> FocusTracker"
  document :: "tracker_ref list"

datatype error = TypeError

definition upd_tracker ::
  "tracker_ref \<Rightarrow> (GlobalKeyboardMouseInteractionTracker \<Rightarrow> GlobalKeyboardMouseInteractionTracker)
    \<Rightarrow> System \<Rightarrow> System" where
  "upd_tracker t f s = s\<lparr>trackers := (trackers s)(t := f (trackers s t))\<rparr>"

definition upd_kft ::
  "kft_ref \<Rightarrow> (KeyboardFocusTracker \<Rightarrow> KeyboardFocusTracker) \<Rightarrow> System \<Rightarrow> System" where
  "upd_kft k f s = s\<lparr>kfts := (kfts s)(k := f (kfts s k))\<rparr>"

definition upd_ft :: "ft_ref \<Rightarrow> (FocusTracker \<Rightarrow> FocusTracker) \<Rightarrow> System \<Rightarrow> System" where
  "upd_ft r f s = s\<lparr>focusTrackers := (focusTrackers s)(r := f (focusTrackers s r))\<rparr>"

subsection \<open>The callbacks of \<open>KeyboardFocusTracker\<close>\<close>

text \<open>
  A change listener is called with \<open>(evt, name, value, oldValue)\<close>; the third parameter
  of each callback is the new value of the property.
\<close>

definition watchMouseMoved :: "kft_ref \<Rightarrow> bool \<Rightarrow> System \<Rightarrow> System" where
  "watchMouseMoved this mouseMoved s =
     (if mouseMoved then upd_kft this (\<lambda>k. k\<lparr>isFocusedUsingKeyboard := False\<rparr>) s else s)"

definition watchIsKeyPressed :: "kft_ref \<Rightarrow> bool \<Rightarrow> System \<Rightarrow> System" where
  "watchIsKeyPressed this keyPressed s =
     (if keyPressed
      then upd_kft this (\<lambda>k. k\<lparr>isFocusedUsingKeyboard :=
             isFocused (focusTrackers s (focusTracker (kfts s this)))\<rparr>) s
      else s)"

definition watchChangeFocusedElement :: "kft_ref \<Rightarrow> element option \<Rightarrow> System \<Rightarrow> System" where
  "watchChangeFocusedElement this focusedElem s =
     (let g = trackers s (globalInteractionTracker (kfts s this))
      in upd_kft this (\<lambda>k. k\<lparr>isFocusedUsingKeyboard :=
           (focusedElem \<noteq> None \<and> \<not> isMouseMoved g \<and> isKeyPressed g)\<rparr>) s)"

subsection \<open>Observable properties and their listeners\<close>

text \<open>
  Modelled from the spec: the observable and emitter mixins (\<open>observablemixin\<close>,
  \<open>emittermixin\<close>) are not among the sources. Assigning an observable property stores
  the value and delivers a change notification to the listeners of that property, in
  registration order; an assignment of the value the property already has is a no-op
  and notifies nobody.
\<close>

definition fire_isMouseMoved :: "tracker_ref \<Rightarrow> bool \<Rightarrow> System \<Rightarrow> System" where
  "fire_isMouseMoved t v s = fold (\<lambda>k. watchMouseMoved k v) (on_isMouseMoved (trackers s t)) s"

definition fire_isKeyPressed :: "tracker_ref \<Rightarrow> bool \<Rightarrow> System \<Rightarrow> System" where
  "fire_isKeyPressed t v s = fold (\<lambda>k. watchIsKeyPressed k v) (on_isKeyPressed (trackers s t)) s"

definition fire_focusedElement :: "ft_ref \<Rightarrow> element option \<Rightarrow> System \<Rightarrow> System" where
  "fire_focusedElement r v s =
     fold (\<lambda>k. watchChangeFocusedElement k v) (on_focusedElement (focusTrackers s r)) s"

definition set_isMouseMoved :: "tracker_ref \<Rightarrow> bool \<Rightarrow> System \<Rightarrow> System" where
  "set_isMouseMoved t v s =
     (if isMouseMoved (trackers s t) = v then s
      else fire_isMouseMoved t v (upd_tracker t (\<lambda>g. g\<lparr>isMouseMoved := v\<rparr>) s))"

definition set_isKeyPressed :: "tracker_ref \<Rightarrow> bool \<Rightarrow> System \<Rightarrow> System" where
  "set_isKeyPressed t v s =
     (if isKeyPressed (trackers s t) = v then s
      else fire_isKeyPressed t v (upd_tracker t (\<lambda>g. g\<lparr>isKeyPressed := v\<rparr>) s))"

definition set_focusedElement :: "ft_ref \<Rightarrow> element option \<Rightarrow> System \<Rightarrow> System" where
  "set_focusedElement r v s =
     (if focusedElement (focusTrackers s r) = v then s
      else fire_focusedElement r v (upd_ft r (\<lambda>f. f\<lparr>focusedElement := v\<rparr>) s))"

text \<open>
  Modelled from the spec: the emitter mixin is not among the sources.
  \<open>emitter.on(event, callback)\<close> is \<open>emitter.listenTo(emitter, event, callback)\<close>: it
  registers the callback with the emitter itself as the listening party, and
  \<open>emitter.off(event, callback)\<close> removes it. \<open>emitter.stopListening()\<close> without
  arguments drops everything the emitter listens to, which includes the callbacks
  registered on the emitter through \<open>on\<close>; the \<open>destroy\<close> method of the global tracker
  calls it under the comment \<open>Unmount local listeners\<close>, next to the
  \<open>_domEmitter.stopListening()\<close> that detaches the document listeners.
\<close>

definition stopListening :: "tracker_ref \<Rightarrow> System \<Rightarrow> System" where
  "stopListening t s = upd_tracker t (\<lambda>g. g\<lparr>on_isMouseMoved := [], on_isKeyPressed := []\<rparr>) s"

definition domEmitter_stopListening :: "tracker_ref \<Rightarrow> System \<Rightarrow> System" where
  "domEmitter_stopListening t s = s\<lparr>document := removeAll t (document s)\<rparr>"

subsection \<open>\<open>GlobalKeyboardMouseInteractionTracker\<close>\<close>

datatype dom_event =
  Keydown | Keyup | Mouseenter | Mouseleave | Pointerenter | Pointerleave | OtherEvent string

definition handleMouseMoved :: "tracker_ref \<Rightarrow> System \<Rightarrow> System" where
  "handleMouseMoved this s = set_isMouseMoved this True s"

definition handleResetKeyPress :: "tracker_ref \<Rightarrow> System \<Rightarrow> System" where
  "handleResetKeyPress this s = set_isMouseMoved this False (set_isKeyPressed this False s)"

definition handleKeydown :: "tracker_ref \<Rightarrow> System \<Rightarrow> System" where
  "handleKeydown this s = set_isKeyPressed this True (set_isMouseMoved this False s)"

text \<open>What the listeners mounted by \<open>_mountDocumentListeners\<close> do on a document event.\<close>

fun document_listener :: "dom_event \<Rightarrow> tracker_ref \<Rightarrow> System \<Rightarrow> System" where
  "document_listener Mouseleave this s = handleMouseMoved this s"
| "document_listener Pointerleave this s = handleMouseMoved this s"
| "document_listener Mouseenter this s = handleMouseMoved this s"
| "document_listener Pointerenter this s = handleMouseMoved this s"
| "document_listener Keydown this s = handleKeydown this s"
| "document_listener Keyup this s = handleResetKeyPress this s"
| "document_listener (OtherEvent name) this s = s"

definition mountDocumentListeners :: "tracker_ref \<Rightarrow> System \<Rightarrow> System" where
  "mountDocumentListeners this s = s\<lparr>document := document s @ [this]\<rparr>"

definition dispatchEvent :: "dom_event \<Rightarrow> System \<Rightarrow> System" where
  "dispatchEvent ev s = fold (document_listener ev) (document s) s"

text \<open>
  The constructor. \<open>super()\<close> allocates \<open>this\<close>; the counter is incremented; when the
  slot is occupied the constructor returns the object in the slot and the fresh object
  is dropped, otherwise the fresh object takes the slot, has its flags set and its
  document listeners mounted.
\<close>

definition new_GlobalTracker :: "System \<Rightarrow> tracker_ref \<times> System" where
  "new_GlobalTracker s =
     (let this = nextTracker s;
          s1 = s\<lparr>nextTracker := this + 1,
                 trackers := (trackers s)(this :=
                   \<lparr>isKeyPressed = False, isMouseMoved = False,
                    on_isMouseMoved = [], on_isKeyPressed = []\<rparr>)\<rparr>;
          s2 = s1\<lparr>totalInstances := totalInstances s1 + 1\<rparr>
      in case static_instance s2 of
           Some i \<Rightarrow> (i, s2)
         | None \<Rightarrow>
             (let s3 = s2\<lparr>static_instance := Some this\<rparr>;
                  s4 = upd_tracker this (\<lambda>g. g\<lparr>isKeyPressed := False, isMouseMoved := False\<rparr>) s3
              in (this, mountDocumentListeners this s4)))"

text \<open>
  \<open>destroy\<close>, up to and including the decrement of the counter.
\<close>

definition destroy_teardown :: "tracker_ref \<Rightarrow> System \<Rightarrow> System" where
  "destroy_teardown this s =
     (let s1 = stopListening this s;
          s2 = domEmitter_stopListening this s1;
          s3 = set_isKeyPressed this False s2;
          s4 = set_isMouseMoved this False s3
      in s4\<lparr>totalInstances := totalInstances s4 - 1\<rparr>)"

lemma totalInstances_upd_kft [simp]: "totalInstances (upd_kft k f s) = totalInstances s"
  by (simp add: upd_kft_def)

lemma totalInstances_upd_tracker [simp]: "totalInstances (upd_tracker t f s) = totalInstances s"
  by (simp add: upd_tracker_def)

lemma totalInstances_fold_watchMouseMoved [simp]:
  "totalInstances (fold (\<lambda>k. watchMouseMoved k v) ks s) = totalInstances s"
  by (induction ks arbitrary: s) (simp_all add: watchMouseMoved_def)

lemma totalInstances_fold_watchIsKeyPressed [simp]:
  "totalInstances (fold (\<lambda>k. watchIsKeyPressed k v) ks s) = totalInstances s"
  by (induction ks arbitrary: s) (simp_all add: watchIsKeyPressed_def)

lemma totalInstances_destroy_teardown [simp]:
  "totalInstances (destroy_teardown t s) = totalInstances s - 1"
  by (simp add: destroy_teardown_def Let_def set_isMouseMoved_def set_isKeyPressed_def
      fire_isMouseMoved_def fire_isKeyPressed_def stopListening_def
      domEmitter_stopListening_def)

text \<open>
  \<open>destroy\<close> as a whole: when the counter has reached zero it calls \<open>destroy\<close> again
  on the object in the slot (a \<open>TypeError\<close> when the slot holds \<open>null\<close>) and then
  clears the slot. The inner call decrements the counter once more, so it does not
  recurse further.
\<close>

function GlobalTracker_destroy :: "tracker_ref \<Rightarrow> System \<Rightarrow> error + System" where
  "GlobalTracker_destroy this s =
     (if totalInstances (destroy_teardown this s) = 0
      then (case static_instance (destroy_teardown this s) of
              None \<Rightarrow> Inl TypeError
            | Some i \<Rightarrow>
                (case GlobalTracker_destroy i (destroy_teardown this s) of
                   Inl e \<Rightarrow> Inl e
                 | Inr s' \<Rightarrow> Inr (s'\<lparr>static_instance := None\<rparr>)))
      else Inr (destroy_teardown this s))"
  by pat_completeness auto
termination
  by (relation "measure (\<lambda>(this, s). if totalInstances s = 1 then 1 else 0)") auto

subsection \<open>\<open>KeyboardFocusTracker\<close>\<close>

definition new_KeyboardFocusTracker :: "ft_ref \<Rightarrow> System \<Rightarrow> kft_ref \<times> System" where
  "new_KeyboardFocusTracker ft s =
     (let this = nextKft s;
          (g, s1) = new_GlobalTracker s;
          s2 = s1\<lparr>nextKft := this + 1,
                  kfts := (kfts s1)(this :=
                    \<lparr>isFocusedUsingKeyboard = False, globalInteractionTracker = g,
                     focusTracker = ft\<rparr>)\<rparr>;
          s3 = upd_tracker g (\<lambda>t. t\<lparr>on_isMouseMoved := on_isMouseMoved t @ [this]\<rparr>) s2;
          s4 = upd_tracker g (\<lambda>t. t\<lparr>on_isKeyPressed := on_isKeyPressed t @ [this]\<rparr>) s3;
          s5 = upd_ft ft (\<lambda>f. f\<lparr>on_focusedElement := on_focusedElement f @ [this]\<rparr>) s4
      in (this, s5))"

text \<open>
  \<open>destroy\<close>. The keyboard focus tracker itself listens to nothing, so its own
  \<open>stopListening()\<close> changes nothing here. An exception of the global tracker's
  \<open>destroy\<close> leaves the last assignment undone.
\<close>

definition KeyboardFocusTracker_destroy :: "kft_ref \<Rightarrow> System \<Rightarrow> error + System" where
  "KeyboardFocusTracker_destroy this s =
     (let ft = focusTracker (kfts s this);
          g = globalInteractionTracker (kfts s this);
          s1 = upd_ft ft (\<lambda>f. f\<lparr>on_focusedElement := removeAll this (on_focusedElement f)\<rparr>) s;
          s2 = upd_tracker g (\<lambda>t. t\<lparr>on_isMouseMoved := removeAll this (on_isMouseMoved t)\<rparr>) s1
      in case GlobalTracker_destroy g s2 of
           Inl e \<Rightarrow> Inl e
         | Inr s3 \<Rightarrow> Inr (upd_kft this (\<lambda>k. k\<lparr>isFocusedUsingKeyboard := False\<rparr>) s3))"

subsection \<open>The focus tracker\<close>

text \<open>
  Modelled from the spec: the focus tracker (\<open>focustracker\<close>) is not among the sources.
  It holds the observable \<open>focusedElement\<close> and the flag \<open>isFocused\<close>, and reports a
  change of the focused element with the new element (or none) as payload. A focus
  event on a registered element makes that element the focused one at once. A blur
  is not answered at once: the tracker waits for the next timer tick, and a focus event
  that arrives before the tick cancels the wait. The test suite of the keyboard focus
  tracker shows it: in \<open>should keep isFocusedUsingKeyboard=true while switching focus
  between elements\<close> the flag is still true right after the blur of the first input,
  which a change notification without an element would have cleared.
\<close>

definition FocusTracker_focus :: "ft_ref \<Rightarrow> element \<Rightarrow> System \<Rightarrow> System" where
  "FocusTracker_focus r e s =
     (let s1 = upd_ft r (\<lambda>f. f\<lparr>blurTimeout := False\<rparr>) s;
          s2 = set_focusedElement r (Some e) s1
      in upd_ft r (\<lambda>f. f\<lparr>isFocused := True\<rparr>) s2)"

definition FocusTracker_blur :: "ft_ref \<Rightarrow> System \<Rightarrow> System" where
  "FocusTracker_blur r s = upd_ft r (\<lambda>f. f\<lparr>blurTimeout := True\<rparr>) s"

definition FocusTracker_timeout :: "ft_ref \<Rightarrow> System \<Rightarrow> System" where
  "FocusTracker_timeout r s =
     (if blurTimeout (focusTrackers s r)
      then (let s1 = upd_ft r (\<lambda>f. f\<lparr>blurTimeout := False\<rparr>) s;
                s2 = set_focusedElement r None s1
            in upd_ft r (\<lambda>f. f\<lparr>isFocused := False\<rparr>) s2)
      else s)"

subsection \<open>Runs of the system\<close>

datatype action =
  Dom dom_event
  | Focus ft_ref element
  | Blur ft_ref
  | Timeout ft_ref
  | Construct ft_ref
  | Destroy kft_ref

fun step :: "action \<Rightarrow> System \<Rightarrow> error + System" where
  "step (Dom ev) s = Inr (dispatchEvent ev s)"
| "step (Focus r e) s = Inr (FocusTracker_focus r e s)"
| "step (Blur r) s = Inr (FocusTracker_blur r s)"
| "step (Timeout r) s = Inr (FocusTracker_timeout r s)"
| "step (Construct r) s = Inr (snd (new_KeyboardFocusTracker r s))"
| "step (Destroy k) s = KeyboardFocusTracker_destroy k s"

fun run :: "action list \<Rightarrow> System \<Rightarrow> error + System" where
  "run [] s = Inr s"
| "run (a # as) s = (case step a s of Inl e \<Rightarrow> Inl e | Inr s' \<Rightarrow> run as s')"

text \<open>The state of a page before any tracker is constructed.\<close>

definition initial :: System where
  "initial =
     \<lparr>static_instance = None, totalInstances = 0,
      trackers = (\<lambda>_. \<lparr>isKeyPressed = False, isMouseMoved = False,
                       on_isMouseMoved = [], on_isKeyPressed = []\<rparr>),
      nextTracker = 0,
      kfts = (\<lambda>_. \<lparr>isFocusedUsingKeyboard = False, globalInteractionTracker = 0,
                    focusTracker = 0\<rparr>),
      nextKft = 0,
      focusTrackers = (\<lambda>_. \<lparr>focusedElement = None, isFocused = False, blurTimeout = False,
                            on_focusedElement = []\<rparr>),
      document = []\<rparr>"

subsection \<open>The transition table of the specification\<close>

text \<open>
  The table of the specification for the two signals of the global tracker, as a
  function on the pair (\<open>isKeyPressed\<close>, \<open>isMouseMoved\<close>): a \<open>keydown\<close> sets the pair to
  (true, false), a \<open>keyup\<close> to (false, false), each of \<open>mouseenter\<close>, \<open>mouseleave\<close>,
  \<open>pointerenter\<close> and \<open>pointerleave\<close> sets \<open>isMouseMoved\<close>, and no other event touches
  either signal. It is written from the specification and compared with the code below.
\<close>

fun spec_transition :: "dom_event \<Rightarrow> bool \<times> bool \<Rightarrow> bool \<times> bool" where
  "spec_transition Keydown (keyPressed, mouseMoved) = (True, False)"
| "spec_transition Keyup (keyPressed, mouseMoved) = (False, False)"
| "spec_transition Mouseenter (keyPressed, mouseMoved) = (keyPressed, True)"
| "spec_transition Mouseleave (keyPressed, mouseMoved) = (keyPressed, True)"
| "spec_transition Pointerenter (keyPressed, mouseMoved) = (keyPressed, True)"
| "spec_transition Pointerleave (keyPressed, mouseMoved) = (keyPressed, True)"
| "spec_transition (OtherEvent name) (keyPressed, mouseMoved) = (keyPressed, mouseMoved)"

definition signals :: "GlobalKeyboardMouseInteractionTracker \<Rightarrow> bool \<times> bool" where
  "signals g = (isKeyPressed g, isMouseMoved g)"

definition with_signals ::
  "bool \<times> bool \<Rightarrow> GlobalKeyboardMouseInteractionTracker \<Rightarrow> GlobalKeyboardMouseInteractionTracker" where
  "with_signals p g = g\<lparr>isKeyPressed := fst p, isMouseMoved := snd p\<rparr>"

text \<open>The four events whose listener is \<open>handleMouseMoved\<close>.\<close>

definition mouse_or_pointer :: "dom_event \<Rightarrow> bool" where
  "mouse_or_pointer ev = (ev = Mouseenter \<or> ev = Mouseleave \<or> ev = Pointerenter \<or> ev = Pointerleave)"

subsection \<open>Predicates on steps and states\<close>

text \<open>
  The steps that may come between a \<open>keydown\<close> and a focus event without touching
  what the \<open>keydown\<close> set up: any document event but a \<open>keyup\<close> and the four mouse and
  pointer events, and any step of a focus tracker. Constructing and destroying trackers
  are operations of the program, not events.
\<close>

fun quiet :: "action \<Rightarrow> bool" where
  "quiet (Dom ev) = (ev \<noteq> Keyup \<and> \<not> mouse_or_pointer ev)"
| "quiet (Focus r e) = True"
| "quiet (Blur r) = True"
| "quiet (Timeout r) = True"
| "quiet (Construct r) = False"
| "quiet (Destroy k) = False"

text \<open>
  A key is held for the keyboard focus tracker \<open>k\<close>, which listens to the focus tracker
  \<open>r\<close>: its global tracker is mounted, has \<open>isKeyPressed\<close> set and \<open>isMouseMoved\<close> clear.
\<close>

definition key_held :: "kft_ref \<Rightarrow> ft_ref \<Rightarrow> System \<Rightarrow> bool" where
  "key_held k r s =
     (k \<in> set (on_focusedElement (focusTrackers s r))
      \<and> globalInteractionTracker (kfts s k) \<in> set (document s)
      \<and> isKeyPressed (trackers s (globalInteractionTracker (kfts s k)))
      \<and> \<not> isMouseMoved (trackers s (globalInteractionTracker (kfts s k))))"

text \<open>
  The steps that cannot disturb a focus that no blur is waiting on: document events
  other than \<open>keyup\<close> and the four mouse and pointer events, and timer ticks of focus
  trackers.
\<close>

fun harmless :: "action \<Rightarrow> bool" where
  "harmless (Dom ev) = (ev \<noteq> Keyup \<and> \<not> mouse_or_pointer ev)"
| "harmless (Focus r e) = False"
| "harmless (Blur r) = False"
| "harmless (Timeout r) = True"
| "harmless (Construct r) = False"
| "harmless (Destroy k) = False"

text \<open>The same steps, but for the timer tick of the focus tracker \<open>r\<close>.\<close>

fun harmless_but :: "ft_ref \<Rightarrow> action \<Rightarrow> bool" where
  "harmless_but r (Dom ev) = (ev \<noteq> Keyup \<and> \<not> mouse_or_pointer ev)"
| "harmless_but r (Focus r' e) = False"
| "harmless_but r (Blur r') = False"
| "harmless_but r (Timeout r') = (r' \<noteq> r)"
| "harmless_but r (Construct r') = False"
| "harmless_but r (Destroy k) = False"

text \<open>
  A sequence of steps in which the focus tracker \<open>r\<close> sees focus and blur events and
  its timer never ticks while a blur of \<open>r\<close> waits for an answer; \<open>pending\<close> says whether
  a blur is waiting when the sequence starts.
\<close>

fun calm :: "ft_ref \<Rightarrow> bool \<Rightarrow> action list \<Rightarrow> bool" where
  "calm r pending [] = True"
| "calm r pending (Dom ev # as) = (ev \<noteq> Keyup \<and> \<not> mouse_or_pointer ev \<and> calm r pending as)"
| "calm r pending (Focus r' e # as) = (r' = r \<and> calm r False as)"
| "calm r pending (Blur r' # as) = (r' = r \<and> calm r True as)"
| "calm r pending (Timeout r' # as) = ((r' \<noteq> r \<or> \<not> pending) \<and> calm r pending as)"
| "calm r pending (Construct r' # as) = False"
| "calm r pending (Destroy k # as) = False"

text \<open>The callback of \<open>k\<close> is registered with no focus tracker but \<open>r\<close>.\<close>

definition only_at :: "kft_ref \<Rightarrow> ft_ref \<Rightarrow> System \<Rightarrow> bool" where
  "only_at k r s = (\<forall>r'. k \<in> set (on_focusedElement (focusTrackers s r')) \<longrightarrow> r' = r)"

text \<open>
  A key is held for \<open>k\<close> and the element \<open>a\<close> is not the focused element of \<open>r\<close> yet.
\<close>

definition awaiting :: "kft_ref \<Rightarrow> ft_ref \<Rightarrow> element \<Rightarrow> System \<Rightarrow> bool" where
  "awaiting k r a s =
     (key_held k r s \<and> focusTracker (kfts s k) = r \<and> only_at k r s
      \<and> focusedElement (focusTrackers s r) \<noteq> Some a)"

text \<open>
  The focus of \<open>r\<close> is attributed to the keyboard in \<open>k\<close> while the key is held.
\<close>

definition attributed :: "kft_ref \<Rightarrow> ft_ref \<Rightarrow> System \<Rightarrow> bool" where
  "attributed k r s =
     (key_held k r s \<and> focusTracker (kfts s k) = r \<and> isFocused (focusTrackers s r)
      \<and> isFocusedUsingKeyboard (kfts s k))"

text \<open>
  The attribution holds and, unless \<open>pending\<close>, no blur of \<open>r\<close> waits for an answer.
\<close>

definition holding :: "kft_ref \<Rightarrow> ft_ref \<Rightarrow> bool \<Rightarrow> System \<Rightarrow> bool" where
  "holding k r pending s =
     (attributed k r s \<and> only_at k r s \<and> (pending \<or> \<not> blurTimeout (focusTrackers s r)))"

text \<open>A global tracker after \<open>destroy\<close>: both signals false and no listeners.\<close>

definition blank_tracker :: GlobalKeyboardMouseInteractionTracker where
  "blank_tracker = \<lparr>isKeyPressed = False, isMouseMoved = False,
                     on_isMouseMoved = [], on_isKeyPressed = []\<rparr>"

text \<open>
  What every run from the initial state keeps: a callback is registered only with the
  global tracker and the focus tracker that its keyboard focus tracker holds, only
  constructed keyboard focus trackers are registered, and the counter is not positive
  while the slot is empty.
\<close>

definition wellformed :: "System \<Rightarrow> bool" where
  "wellformed s =
     ((\<forall>t k. k \<in> set (on_isMouseMoved (trackers s t)) \<or> k \<in> set (on_isKeyPressed (trackers s t))
          \<longrightarrow> k < nextKft s \<and> globalInteractionTracker (kfts s k) = t)
      \<and> (\<forall>r k. k \<in> set (on_focusedElement (focusTrackers s r))
          \<longrightarrow> k < nextKft s \<and> focusTracker (kfts s k) = r)
      \<and> (static_instance s = None \<longrightarrow> totalInstances s \<le> 0))"

text \<open>
  The keyboard focus tracker \<open>k\<close> is registered nowhere and its flag is false.
\<close>

definition detached :: "kft_ref \<Rightarrow> System \<Rightarrow> bool" where
  "detached k s =
     ((\<forall>t. k \<notin> set (on_isMouseMoved (trackers s t)) \<and> k \<notin> set (on_isKeyPressed (trackers s t)))
      \<and> (\<forall>r. k \<notin> set (on_focusedElement (focusTrackers s r)))
      \<and> k < nextKft s
      \<and> \<not> isFocusedUsingKeyboard (kfts s k))"

section \<open>What the operations do to the state\<close>

text \<open>
  Every callback writes one field of one keyboard focus tracker, so a notification
  delivered to a list of listeners has a closed form, and so have the assignments of
  the observable properties.
\<close>

lemma fold_watchMouseMoved:
  "fold (\<lambda>k. watchMouseMoved k v) ks s =
     (if v then s\<lparr>kfts := (\<lambda>k. if k \<in> set ks then (kfts s k)\<lparr>isFocusedUsingKeyboard := False\<rparr>
                              else kfts s k)\<rparr>
      else s)"
  by (induction ks arbitrary: s) (auto simp: watchMouseMoved_def upd_kft_def fun_eq_iff)

lemma fold_watchIsKeyPressed:
  "fold (\<lambda>k. watchIsKeyPressed k v) ks s =
     (if v then s\<lparr>kfts := (\<lambda>k. if k \<in> set ks
                 then (kfts s k)\<lparr>isFocusedUsingKeyboard :=
                        isFocused (focusTrackers s (focusTracker (kfts s k)))\<rparr>
                 else kfts s k)\<rparr>
      else s)"
  by (induction ks arbitrary: s) (auto simp: watchIsKeyPressed_def upd_kft_def fun_eq_iff)

lemma fold_watchChangeFocusedElement:
  "fold (\<lambda>k. watchChangeFocusedElement k v) ks s =
     s\<lparr>kfts := (\<lambda>k. if k \<in> set ks
                 then (kfts s k)\<lparr>isFocusedUsingKeyboard :=
                        (v \<noteq> None
                         \<and> \<not> isMouseMoved (trackers s (globalInteractionTracker (kfts s k)))
                         \<and> isKeyPressed (trackers s (globalInteractionTracker (kfts s k))))\<rparr>
                 else kfts s k)\<rparr>"
  by (induction ks arbitrary: s) (auto simp: watchChangeFocusedElement_def upd_kft_def fun_eq_iff Let_def)

lemma isMouseMoved_update_same:
  "isMouseMoved g = v \<Longrightarrow> g\<lparr>isMouseMoved := v\<rparr> = g"
  by (cases g) simp

lemma isKeyPressed_update_same:
  "isKeyPressed g = v \<Longrightarrow> g\<lparr>isKeyPressed := v\<rparr> = g"
  by (cases g) simp

lemma focusedElement_update_same:
  "focusedElement f = v \<Longrightarrow> f\<lparr>focusedElement := v\<rparr> = f"
  by (cases f) simp

lemma tracker_reset:
  "g\<lparr>on_isMouseMoved := [], on_isKeyPressed := [], isKeyPressed := False, isMouseMoved := False\<rparr>
     = \<lparr>isKeyPressed = False, isMouseMoved = False, on_isMouseMoved = [], on_isKeyPressed = []\<rparr>"
  by (cases g) simp

lemma set_isMouseMoved_eq:
  "set_isMouseMoved t v s =
     s\<lparr>trackers := (trackers s)(t := (trackers s t)\<lparr>isMouseMoved := v\<rparr>),
       kfts := (\<lambda>k. if v \<and> \<not> isMouseMoved (trackers s t) \<and> k \<in> set (on_isMouseMoved (trackers s t))
                     then (kfts s k)\<lparr>isFocusedUsingKeyboard := False\<rparr>
                     else kfts s k)\<rparr>"
  by (cases "isMouseMoved (trackers s t) = v")
     (auto simp: fun_eq_iff set_isMouseMoved_def fire_isMouseMoved_def fold_watchMouseMoved upd_tracker_def
        isMouseMoved_update_same)

lemma set_isKeyPressed_eq:
  "set_isKeyPressed t v s =
     s\<lparr>trackers := (trackers s)(t := (trackers s t)\<lparr>isKeyPressed := v\<rparr>),
       kfts := (\<lambda>k. if v \<and> \<not> isKeyPressed (trackers s t) \<and> k \<in> set (on_isKeyPressed (trackers s t))
                     then (kfts s k)\<lparr>isFocusedUsingKeyboard :=
                            isFocused (focusTrackers s (focusTracker (kfts s k)))\<rparr>
                     else kfts s k)\<rparr>"
  by (cases "isKeyPressed (trackers s t) = v")
     (auto simp: fun_eq_iff set_isKeyPressed_def fire_isKeyPressed_def fold_watchIsKeyPressed upd_tracker_def
        isKeyPressed_update_same)

lemma set_focusedElement_eq:
  "set_focusedElement r v s =
     s\<lparr>focusTrackers := (focusTrackers s)(r := (focusTrackers s r)\<lparr>focusedElement := v\<rparr>),
       kfts := (\<lambda>k. if focusedElement (focusTrackers s r) \<noteq> v
                        \<and> k \<in> set (on_focusedElement (focusTrackers s r))
                     then (kfts s k)\<lparr>isFocusedUsingKeyboard :=
                            (v \<noteq> None
                             \<and> \<not> isMouseMoved (trackers s (globalInteractionTracker (kfts s k)))
                             \<and> isKeyPressed (trackers s (globalInteractionTracker (kfts s k))))\<rparr>
                     else kfts s k)\<rparr>"
  by (cases "focusedElement (focusTrackers s r) = v")
     (auto simp: fun_eq_iff set_focusedElement_def fire_focusedElement_def fold_watchChangeFocusedElement
        upd_ft_def focusedElement_update_same)

lemma destroy_teardown_eq:
  "destroy_teardown t s =
     s\<lparr>trackers := (trackers s)(t := \<lparr>isKeyPressed = False, isMouseMoved = False,
                                      on_isMouseMoved = [], on_isKeyPressed = []\<rparr>),
       document := removeAll t (document s),
       totalInstances := totalInstances s - 1\<rparr>"
  by (simp add: destroy_teardown_def Let_def stopListening_def domEmitter_stopListening_def
      set_isMouseMoved_eq set_isKeyPressed_eq upd_tracker_def tracker_reset)

lemma GlobalTracker_destroy_eq:
  "GlobalTracker_destroy t s =
     (if totalInstances s = 1
      then (case static_instance s of
              None \<Rightarrow> Inl TypeError
            | Some i \<Rightarrow> Inr ((destroy_teardown i (destroy_teardown t s))\<lparr>static_instance := None\<rparr>))
      else Inr (destroy_teardown t s))"
  by (simp add: destroy_teardown_eq split: option.splits)

declare GlobalTracker_destroy.simps [simp del]

subsection \<open>Document events\<close>

lemma trackers_document_listener:
  "trackers (document_listener ev t s) =
     (trackers s)(t := with_signals (spec_transition ev (signals (trackers s t))) (trackers s t))"
  by (cases ev)
     (auto simp: fun_eq_iff with_signals_def signals_def handleMouseMoved_def handleKeydown_def
        handleResetKeyPress_def set_isMouseMoved_eq set_isKeyPressed_eq
        isMouseMoved_update_same isKeyPressed_update_same)

lemma document_listener_frame:
  "document (document_listener ev t s) = document s"
  "static_instance (document_listener ev t s) = static_instance s"
  "totalInstances (document_listener ev t s) = totalInstances s"
  "nextTracker (document_listener ev t s) = nextTracker s"
  "nextKft (document_listener ev t s) = nextKft s"
  "focusTrackers (document_listener ev t s) = focusTrackers s"
  by (cases ev; simp add: handleMouseMoved_def handleKeydown_def
        handleResetKeyPress_def set_isMouseMoved_eq set_isKeyPressed_eq)+

lemma kfts_document_listener_fields:
  "globalInteractionTracker (kfts (document_listener ev t s) k) = globalInteractionTracker (kfts s k)"
  "focusTracker (kfts (document_listener ev t s) k) = focusTracker (kfts s k)"
  by (cases ev; simp add: handleMouseMoved_def handleKeydown_def
        handleResetKeyPress_def set_isMouseMoved_eq set_isKeyPressed_eq)+

lemma dispatchEvent_invariant:
  assumes "\<And>t s. P s \<Longrightarrow> P (document_listener ev t s)" and "P s"
  shows "P (dispatchEvent ev s)"
proof -
  have "P (fold (document_listener ev) ts s)" for ts
    using assms(2) by (induction ts arbitrary: s) (simp_all add: assms(1))
  then show ?thesis by (simp add: dispatchEvent_def)
qed

lemma fold_reaches:
  assumes est: "\<And>s. pre s \<Longrightarrow> post (f t s)"
    and keep_pre: "\<And>t' s. t' \<noteq> t \<Longrightarrow> pre s \<Longrightarrow> pre (f t' s)"
    and keep_post: "\<And>t' s. post s \<Longrightarrow> post (f t' s)"
    and "t \<in> set ts" and "pre s"
  shows "post (fold f ts s)"
proof -
  have keep: "post s \<Longrightarrow> post (fold f ts s)" for ts s
    by (induction ts arbitrary: s) (simp_all add: keep_post)
  from assms(4,5) show ?thesis
  proof (induction ts arbitrary: s)
    case Nil
    then show ?case by simp
  next
    case (Cons a ts)
    show ?case
    proof (cases "a = t")
      case True
      with Cons.prems est have "post (f a s)" by simp
      then show ?thesis using keep by simp
    next
      case False
      with Cons.prems have "t \<in> set ts" and "pre (f a s)" by (auto intro: keep_pre)
      then show ?thesis using Cons.IH by simp
    qed
  qed
qed

lemma signals_with_signals [simp]: "signals (with_signals p g) = p"
  by (simp add: signals_def with_signals_def)

lemma spec_transition_idem: "spec_transition ev (spec_transition ev p) = spec_transition ev p"
  by (cases ev; cases p) simp_all

lemma with_signals_twice [simp]: "with_signals p (with_signals q g) = with_signals p g"
  by (simp add: with_signals_def)

lemma trackers_fold_document_listener:
  "trackers (fold (document_listener ev) ts s) t =
     (if t \<in> set ts then with_signals (spec_transition ev (signals (trackers s t))) (trackers s t)
      else trackers s t)"
  by (induction ts arbitrary: s)
     (simp_all add: trackers_document_listener spec_transition_idem)

lemma spec_transition_other: "spec_transition (OtherEvent name) p = p"
  by (cases p) simp

lemma with_signals_same: "with_signals (signals g) g = g"
  by (simp add: with_signals_def signals_def)

lemma kfts_handleResetKeyPress: "kfts (handleResetKeyPress t s) = kfts s"
  by (simp add: handleResetKeyPress_def set_isMouseMoved_eq set_isKeyPressed_eq)

lemma document_listener_mouse:
  "mouse_or_pointer ev \<Longrightarrow> document_listener ev t s = set_isMouseMoved t True s"
  by (auto simp: mouse_or_pointer_def handleMouseMoved_def)

text \<open>The definitions and closed forms that evaluate the model on a concrete state.\<close>

lemmas model_defs =
  initial_def new_KeyboardFocusTracker_def new_GlobalTracker_def KeyboardFocusTracker_destroy_def
  GlobalTracker_destroy_eq destroy_teardown_eq mountDocumentListeners_def
  upd_tracker_def upd_kft_def upd_ft_def dispatchEvent_def
  handleMouseMoved_def handleKeydown_def handleResetKeyPress_def
  set_isMouseMoved_eq set_isKeyPressed_eq set_focusedElement_eq
  FocusTracker_focus_def FocusTracker_blur_def FocusTracker_timeout_def Let_def signals_def

subsection \<open>Frames of the steps\<close>

lemma dispatchEvent_frame:
  "document (dispatchEvent ev s) = document s"
  "static_instance (dispatchEvent ev s) = static_instance s"
  "totalInstances (dispatchEvent ev s) = totalInstances s"
  "nextTracker (dispatchEvent ev s) = nextTracker s"
  "nextKft (dispatchEvent ev s) = nextKft s"
  "focusTrackers (dispatchEvent ev s) = focusTrackers s"
  "globalInteractionTracker (kfts (dispatchEvent ev s) k) = globalInteractionTracker (kfts s k)"
  "focusTracker (kfts (dispatchEvent ev s) k) = focusTracker (kfts s k)"
  by (rule dispatchEvent_invariant;
      simp add: document_listener_frame kfts_document_listener_fields del: document_listener.simps)+

lemma trackers_dispatchEvent:
  "trackers (dispatchEvent ev s) t =
     (if t \<in> set (document s)
      then with_signals (spec_transition ev (signals (trackers s t))) (trackers s t)
      else trackers s t)"
  by (simp add: dispatchEvent_def trackers_fold_document_listener)

lemma with_signals_fields [simp]:
  "isKeyPressed (with_signals p g) = fst p"
  "isMouseMoved (with_signals p g) = snd p"
  "on_isMouseMoved (with_signals p g) = on_isMouseMoved g"
  "on_isKeyPressed (with_signals p g) = on_isKeyPressed g"
  by (simp_all add: with_signals_def)

lemma FocusTracker_frame:
  "trackers (FocusTracker_focus r e s) = trackers s"
  "document (FocusTracker_focus r e s) = document s"
  "trackers (FocusTracker_blur r s) = trackers s"
  "document (FocusTracker_blur r s) = document s"
  "trackers (FocusTracker_timeout r s) = trackers s"
  "document (FocusTracker_timeout r s) = document s"
  "on_focusedElement (focusTrackers (FocusTracker_focus r e s) r') = on_focusedElement (focusTrackers s r')"
  "on_focusedElement (focusTrackers (FocusTracker_blur r s) r') = on_focusedElement (focusTrackers s r')"
  "on_focusedElement (focusTrackers (FocusTracker_timeout r s) r') = on_focusedElement (focusTrackers s r')"
  "globalInteractionTracker (kfts (FocusTracker_focus r e s) k) = globalInteractionTracker (kfts s k)"
  "globalInteractionTracker (kfts (FocusTracker_blur r s) k) = globalInteractionTracker (kfts s k)"
  "globalInteractionTracker (kfts (FocusTracker_timeout r s) k) = globalInteractionTracker (kfts s k)"
  "focusTracker (kfts (FocusTracker_focus r e s) k) = focusTracker (kfts s k)"
  "focusTracker (kfts (FocusTracker_blur r s) k) = focusTracker (kfts s k)"
  "focusTracker (kfts (FocusTracker_timeout r s) k) = focusTracker (kfts s k)"
  by (simp_all add: FocusTracker_focus_def FocusTracker_blur_def FocusTracker_timeout_def
      Let_def upd_ft_def set_focusedElement_eq)

subsection \<open>While a key is held\<close>

lemma key_held_after_keydown:
  assumes "k \<in> set (on_focusedElement (focusTrackers s r))"
    and "globalInteractionTracker (kfts s k) \<in> set (document s)"
  shows "key_held k r (dispatchEvent Keydown s)"
  using assms by (simp add: key_held_def dispatchEvent_frame trackers_dispatchEvent signals_def)

lemma key_held_quiet_dom:
  assumes "key_held k r s" and "ev \<noteq> Keyup" and "\<not> mouse_or_pointer ev"
  shows "key_held k r (dispatchEvent ev s)"
  using assms
  by (cases ev)
     (simp_all add: key_held_def dispatchEvent_frame trackers_dispatchEvent mouse_or_pointer_def
        signals_def)

lemma key_held_quiet_step:
  assumes "key_held k r s" and "quiet a"
  shows "\<exists>s'. step a s = Inr s' \<and> key_held k r s'"
proof (cases a)
  case (Dom ev)
  with assms show ?thesis by (simp add: key_held_quiet_dom)
next
  case (Focus r' e)
  with assms show ?thesis by (simp add: key_held_def FocusTracker_frame)
next
  case (Blur r')
  with assms show ?thesis by (simp add: key_held_def FocusTracker_frame)
next
  case (Timeout r')
  with assms show ?thesis by (simp add: key_held_def FocusTracker_frame)
next
  case (Construct r')
  with assms show ?thesis by simp
next
  case (Destroy k')
  with assms show ?thesis by simp
qed

lemma key_held_quiet_run:
  assumes "key_held k r s" and "list_all quiet as"
  shows "\<exists>s'. run as s = Inr s' \<and> key_held k r s'"
  using assms
proof (induction as arbitrary: s)
  case Nil
  then show ?case by simp
next
  case (Cons a as)
  from Cons.prems obtain s1 where s1: "step a s = Inr s1" "key_held k r s1"
    using key_held_quiet_step [of k r s a] by auto
  with Cons.IH [of s1] Cons.prems show ?case by simp
qed

lemma focus_when_key_held:
  assumes "key_held k r s" and "focusedElement (focusTrackers s r) \<noteq> Some e"
  shows "isFocusedUsingKeyboard (kfts (FocusTracker_focus r e s) k)"
  using assms
  by (simp add: key_held_def FocusTracker_focus_def Let_def upd_ft_def set_focusedElement_eq)

lemma attributed_keydown_listener:
  assumes "attributed k r s"
  shows "attributed k r (document_listener Keydown t s)"
proof -
  have "isFocusedUsingKeyboard (kfts (document_listener Keydown t s) k)"
    using assms
    by (simp add: attributed_def handleKeydown_def set_isMouseMoved_eq set_isKeyPressed_eq)
  moreover have "key_held k r (document_listener Keydown t s)"
    using assms
    by (auto simp: attributed_def key_held_def trackers_document_listener document_listener_frame
        kfts_document_listener_fields signals_def simp del: document_listener.simps)
  ultimately show ?thesis
    using assms
    by (simp add: attributed_def document_listener_frame kfts_document_listener_fields
        del: document_listener.simps)
qed

lemma attributed_quiet_dom:
  assumes "attributed k r s" and "ev \<noteq> Keyup" and "\<not> mouse_or_pointer ev"
  shows "attributed k r (dispatchEvent ev s)"
proof (cases ev)
  case Keydown
  show ?thesis unfolding Keydown
    by (rule dispatchEvent_invariant) (fact attributed_keydown_listener, fact assms(1))
next
  case (OtherEvent name)
  have "dispatchEvent (OtherEvent name) s = s"
    by (rule dispatchEvent_invariant [where P = "\<lambda>s'. s' = s"]) simp_all
  with assms(1) OtherEvent show ?thesis by simp
qed (use assms in \<open>simp_all add: mouse_or_pointer_def\<close>)

lemma attributed_focus:
  assumes "attributed k r s"
  shows "attributed k r (FocusTracker_focus r e s)"
  using assms
  by (simp add: attributed_def key_held_def FocusTracker_focus_def Let_def upd_ft_def
      set_focusedElement_eq)

lemma attributed_blur:
  assumes "attributed k r s"
  shows "attributed k r (FocusTracker_blur r s)"
  using assms
  by (simp add: attributed_def key_held_def FocusTracker_blur_def upd_ft_def)

lemma harmless_quiet: "harmless a \<Longrightarrow> quiet a"
  by (cases a) simp_all

lemma calm_harmless_append:
  "list_all harmless xs \<Longrightarrow> calm r False (xs @ ys) = calm r False ys"
proof (induction xs)
  case Nil
  then show ?case by simp
next
  case (Cons a xs)
  then show ?case by (cases a) simp_all
qed

lemma calm_harmless_but_append:
  "list_all (harmless_but r) xs \<Longrightarrow> calm r pending (xs @ ys) = calm r pending ys"
proof (induction xs)
  case Nil
  then show ?case by simp
next
  case (Cons a xs)
  then show ?case by (cases a) simp_all
qed

lemma calm_prefix: "calm r pending (p @ q) \<Longrightarrow> calm r pending p"
proof (induction p arbitrary: pending)
  case Nil
  then show ?case by simp
next
  case (Cons a p)
  then show ?case by (cases a) auto
qed

lemma only_at_dispatchEvent: "only_at k r (dispatchEvent ev s) = only_at k r s"
  by (simp add: only_at_def dispatchEvent_frame)

lemma only_at_focus:
  "only_at k r (FocusTracker_focus r' e s) = only_at k r s"
  "only_at k r (FocusTracker_blur r' s) = only_at k r s"
  "only_at k r (FocusTracker_timeout r' s) = only_at k r s"
  by (simp_all add: only_at_def FocusTracker_frame)

lemma focusedElement_timeout:
  "focusedElement (focusTrackers (FocusTracker_timeout r' s) r) = focusedElement (focusTrackers s r)
   \<or> focusedElement (focusTrackers (FocusTracker_timeout r' s) r) = None"
  by (simp add: FocusTracker_timeout_def Let_def upd_ft_def set_focusedElement_eq)

lemma awaiting_harmless_step:
  assumes "awaiting k r a s" and "harmless x"
  shows "\<exists>s'. step x s = Inr s' \<and> awaiting k r a s'"
proof (cases x)
  case (Dom ev)
  with assms show ?thesis
    by (simp add: awaiting_def key_held_quiet_dom only_at_dispatchEvent dispatchEvent_frame)
next
  case (Timeout r')
  have "key_held k r (FocusTracker_timeout r' s)"
    using assms(1) by (simp add: awaiting_def key_held_def FocusTracker_frame)
  moreover have "focusedElement (focusTrackers (FocusTracker_timeout r' s) r) \<noteq> Some a"
    using focusedElement_timeout [of r' s r] assms(1) by (auto simp: awaiting_def)
  ultimately show ?thesis
    using assms(1) Timeout by (simp add: awaiting_def only_at_focus FocusTracker_frame)
qed (use assms in simp_all)

lemma awaiting_harmless_run:
  assumes "awaiting k r a s" and "list_all harmless xs"
  shows "\<exists>s'. run xs s = Inr s' \<and> awaiting k r a s'"
  using assms
proof (induction xs arbitrary: s)
  case Nil
  then show ?case by simp
next
  case (Cons x xs)
  then obtain s1 where "step x s = Inr s1" "awaiting k r a s1"
    using awaiting_harmless_step [of k r a s x] by auto
  with Cons.IH [of s1] Cons.prems show ?case by simp
qed

lemma attributed_timeout_other:
  assumes "attributed k r s" and "only_at k r s" and "r' \<noteq> r"
  shows "attributed k r (FocusTracker_timeout r' s)"
  using assms
  by (auto simp: attributed_def key_held_def only_at_def FocusTracker_timeout_def Let_def
      upd_ft_def set_focusedElement_eq)

lemma timeout_not_pending:
  "\<not> blurTimeout (focusTrackers s r) \<Longrightarrow> FocusTracker_timeout r s = s"
  by (simp add: FocusTracker_timeout_def)

lemma blurTimeout_frame:
  "blurTimeout (focusTrackers (dispatchEvent ev s) r) = blurTimeout (focusTrackers s r)"
  "r' \<noteq> r \<Longrightarrow> blurTimeout (focusTrackers (FocusTracker_timeout r' s) r)
     = blurTimeout (focusTrackers s r)"
  "\<not> blurTimeout (focusTrackers (FocusTracker_focus r e s) r)"
  by (simp_all add: dispatchEvent_frame FocusTracker_timeout_def FocusTracker_focus_def Let_def
      upd_ft_def set_focusedElement_eq)

lemma holding_calm_run:
  assumes "calm r pending xs" and "holding k r pending s"
  shows "\<exists>s'. run xs s = Inr s' \<and> attributed k r s'"
  using assms
proof (induction xs arbitrary: s pending)
  case Nil
  then show ?case by (simp add: holding_def)
next
  case (Cons x xs)
  show ?case
  proof (cases x)
    case (Dom ev)
    with Cons.prems have "holding k r pending (dispatchEvent ev s)"
      by (simp add: holding_def attributed_quiet_dom only_at_dispatchEvent blurTimeout_frame)
    with Cons.IH [of pending "dispatchEvent ev s"] Cons.prems Dom show ?thesis by simp
  next
    case (Focus r' e)
    with Cons.prems have r': "r' = r" and rest: "calm r False xs" by simp_all
    from Cons.prems(2) have "holding k r False (FocusTracker_focus r e s)"
      by (simp add: holding_def attributed_focus only_at_focus blurTimeout_frame)
    with Cons.IH [OF rest] Focus r' show ?thesis by simp
  next
    case (Blur r')
    with Cons.prems have r': "r' = r" and rest: "calm r True xs" by simp_all
    from Cons.prems(2) have "holding k r True (FocusTracker_blur r s)"
      by (simp add: holding_def attributed_blur only_at_focus)
    with Cons.IH [OF rest] Blur r' show ?thesis by simp
  next
    case (Timeout r')
    with Cons.prems have ok: "r' \<noteq> r \<or> \<not> pending" and rest: "calm r pending xs" by simp_all
    have "holding k r pending (FocusTracker_timeout r' s)"
    proof (cases "r' = r")
      case True
      with ok Cons.prems(2) have "\<not> blurTimeout (focusTrackers s r)" by (simp add: holding_def)
      with True Cons.prems(2) show ?thesis by (simp add: timeout_not_pending)
    next
      case False
      with Cons.prems(2) show ?thesis
        by (simp add: holding_def attributed_timeout_other only_at_focus blurTimeout_frame)
    qed
    with Cons.IH [OF rest] Timeout show ?thesis by simp
  next
    case (Construct r')
    with Cons.prems show ?thesis by simp
  next
    case (Destroy k')
    with Cons.prems show ?thesis by simp
  qed
qed

lemma run_append:
  "run (as @ bs) s = (case run as s of Inl e \<Rightarrow> Inl e | Inr s' \<Rightarrow> run bs s')"
  by (induction as arbitrary: s) (simp_all split: sum.splits)

subsection \<open>Constructing and destroying\<close>

lemma destroy_result:
  assumes "KeyboardFocusTracker_destroy k s = Inr s'"
  shows "focusTrackers s' = (focusTrackers s)(focusTracker (kfts s k) :=
            (focusTrackers s (focusTracker (kfts s k)))
              \<lparr>on_focusedElement :=
                 removeAll k (on_focusedElement (focusTrackers s (focusTracker (kfts s k))))\<rparr>)"
    and "kfts s' = (kfts s)(k := (kfts s k)\<lparr>isFocusedUsingKeyboard := False\<rparr>)"
    and "nextKft s' = nextKft s"
    and "nextTracker s' = nextTracker s"
    and "totalInstances s' = (if totalInstances s = 1 then - 1 else totalInstances s - 1)"
    and "static_instance s' = (if totalInstances s = 1 then None else static_instance s)"
    and "trackers s' (globalInteractionTracker (kfts s k)) = blank_tracker"
    and "trackers s' t = blank_tracker \<or> trackers s' t = trackers s t"
    and "set (document s') \<subseteq> set (document s) - {globalInteractionTracker (kfts s k)}"
  using assms
  by (auto simp: KeyboardFocusTracker_destroy_def GlobalTracker_destroy_eq destroy_teardown_eq
      Let_def upd_tracker_def upd_kft_def upd_ft_def blank_tracker_def
      split: if_splits option.splits)

lemma destroy_returns:
  "static_instance s \<noteq> None \<or> totalInstances s \<noteq> 1
    \<Longrightarrow> \<exists>s'. KeyboardFocusTracker_destroy k s = Inr s'"
  by (auto simp: KeyboardFocusTracker_destroy_def GlobalTracker_destroy_eq destroy_teardown_eq
      Let_def upd_tracker_def upd_kft_def upd_ft_def
      split: if_splits option.splits)

lemma construct_result:
  fixes s r
  defines "s' \<equiv> snd (new_KeyboardFocusTracker r s)"
  shows "nextKft s' = Suc (nextKft s)"
    and "static_instance s' \<noteq> None"
    and "kfts s' = (kfts s)(nextKft s :=
           \<lparr>isFocusedUsingKeyboard = False,
            globalInteractionTracker = fst (new_GlobalTracker s), focusTracker = r\<rparr>)"
    and "k \<in> set (on_isMouseMoved (trackers s' t)) \<Longrightarrow>
           (k = nextKft s \<and> t = fst (new_GlobalTracker s)) \<or> k \<in> set (on_isMouseMoved (trackers s t))"
    and "k \<in> set (on_isKeyPressed (trackers s' t)) \<Longrightarrow>
           (k = nextKft s \<and> t = fst (new_GlobalTracker s)) \<or> k \<in> set (on_isKeyPressed (trackers s t))"
    and "on_focusedElement (focusTrackers s' r') =
           (if r' = r then on_focusedElement (focusTrackers s r) @ [nextKft s]
            else on_focusedElement (focusTrackers s r'))"
  unfolding s'_def
  by (auto simp: new_KeyboardFocusTracker_def new_GlobalTracker_def Let_def upd_tracker_def
      upd_ft_def mountDocumentListeners_def split: option.splits if_splits)

subsection \<open>Every run keeps the registrations in order\<close>

lemma wellformed_initial: "wellformed initial"
  by (simp add: wellformed_def initial_def)

lemma lists_dispatchEvent:
  "on_isMouseMoved (trackers (dispatchEvent ev s) t) = on_isMouseMoved (trackers s t)"
  "on_isKeyPressed (trackers (dispatchEvent ev s) t) = on_isKeyPressed (trackers s t)"
  by (simp_all add: trackers_dispatchEvent)

lemma wellformed_dispatchEvent: "wellformed s \<Longrightarrow> wellformed (dispatchEvent ev s)"
  by (simp add: wellformed_def lists_dispatchEvent dispatchEvent_frame)

lemma FocusTracker_frame2:
  "nextKft (FocusTracker_focus r e s) = nextKft s"
  "nextKft (FocusTracker_blur r s) = nextKft s"
  "nextKft (FocusTracker_timeout r s) = nextKft s"
  "static_instance (FocusTracker_focus r e s) = static_instance s"
  "static_instance (FocusTracker_blur r s) = static_instance s"
  "static_instance (FocusTracker_timeout r s) = static_instance s"
  "totalInstances (FocusTracker_focus r e s) = totalInstances s"
  "totalInstances (FocusTracker_blur r s) = totalInstances s"
  "totalInstances (FocusTracker_timeout r s) = totalInstances s"
  by (simp_all add: FocusTracker_focus_def FocusTracker_blur_def FocusTracker_timeout_def
      Let_def upd_ft_def set_focusedElement_eq)

lemma wellformed_focus:
  "wellformed s \<Longrightarrow> wellformed (FocusTracker_focus r e s)"
  "wellformed s \<Longrightarrow> wellformed (FocusTracker_blur r s)"
  "wellformed s \<Longrightarrow> wellformed (FocusTracker_timeout r s)"
  by (simp_all add: wellformed_def FocusTracker_frame FocusTracker_frame2)

lemma wellformed_trackerD:
  assumes "wellformed s"
    and "k \<in> set (on_isMouseMoved (trackers s t)) \<or> k \<in> set (on_isKeyPressed (trackers s t))"
  shows "k < nextKft s" and "globalInteractionTracker (kfts s k) = t"
  using assms by (auto simp: wellformed_def)

lemma wellformed_focusD:
  assumes "wellformed s" and "k \<in> set (on_focusedElement (focusTrackers s r))"
  shows "k < nextKft s" and "focusTracker (kfts s k) = r"
  using assms by (auto simp: wellformed_def)

lemma wellformedI:
  assumes "\<And>t k. k \<in> set (on_isMouseMoved (trackers s t)) \<or> k \<in> set (on_isKeyPressed (trackers s t))
             \<Longrightarrow> k < nextKft s \<and> globalInteractionTracker (kfts s k) = t"
    and "\<And>r k. k \<in> set (on_focusedElement (focusTrackers s r))
             \<Longrightarrow> k < nextKft s \<and> focusTracker (kfts s k) = r"
    and "static_instance s = None \<Longrightarrow> totalInstances s \<le> 0"
  shows "wellformed s"
  using assms unfolding wellformed_def by blast

lemma wellformed_construct:
  assumes "wellformed s"
  shows "wellformed (snd (new_KeyboardFocusTracker r s))"
proof (rule wellformedI)
  fix t k
  assume "k \<in> set (on_isMouseMoved (trackers (snd (new_KeyboardFocusTracker r s)) t))
          \<or> k \<in> set (on_isKeyPressed (trackers (snd (new_KeyboardFocusTracker r s)) t))"
  then consider "k = nextKft s \<and> t = fst (new_GlobalTracker s)"
    | "k \<in> set (on_isMouseMoved (trackers s t)) \<or> k \<in> set (on_isKeyPressed (trackers s t))"
    using construct_result(4,5) by blast
  then show "k < nextKft (snd (new_KeyboardFocusTracker r s))
             \<and> globalInteractionTracker (kfts (snd (new_KeyboardFocusTracker r s)) k) = t"
  proof cases
    case 1
    then show ?thesis by (simp add: construct_result(1,3))
  next
    case 2
    from wellformed_trackerD [OF assms 2] show ?thesis
      by (simp add: construct_result(1,3))
  qed
next
  fix r' k
  assume "k \<in> set (on_focusedElement (focusTrackers (snd (new_KeyboardFocusTracker r s)) r'))"
  then consider "k = nextKft s \<and> r' = r" | "k \<in> set (on_focusedElement (focusTrackers s r'))"
    by (auto simp: construct_result(6) split: if_splits)
  then show "k < nextKft (snd (new_KeyboardFocusTracker r s))
             \<and> focusTracker (kfts (snd (new_KeyboardFocusTracker r s)) k) = r'"
  proof cases
    case 1
    then show ?thesis by (simp add: construct_result(1,3))
  next
    case 2
    from wellformed_focusD [OF assms 2] show ?thesis
      by (simp add: construct_result(1,3))
  qed
next
  assume "static_instance (snd (new_KeyboardFocusTracker r s)) = None"
  then show "totalInstances (snd (new_KeyboardFocusTracker r s)) \<le> 0"
    by (simp add: construct_result(2))
qed

lemma blank_tracker_lists [simp]:
  "on_isMouseMoved blank_tracker = []" "on_isKeyPressed blank_tracker = []"
  by (simp_all add: blank_tracker_def)

lemma destroy_lists:
  assumes "KeyboardFocusTracker_destroy k s = Inr s'"
  shows "set (on_isMouseMoved (trackers s' t)) \<subseteq> set (on_isMouseMoved (trackers s t))"
    and "set (on_isKeyPressed (trackers s' t)) \<subseteq> set (on_isKeyPressed (trackers s t))"
    and "set (on_focusedElement (focusTrackers s' r)) \<subseteq> set (on_focusedElement (focusTrackers s r))"
  using destroy_result(8) [OF assms, of t] destroy_result(1) [OF assms]
  by auto

lemma wellformed_destroy:
  assumes "wellformed s" and "KeyboardFocusTracker_destroy k s = Inr s'"
  shows "wellformed s'"
proof (rule wellformedI)
  fix t k'
  assume "k' \<in> set (on_isMouseMoved (trackers s' t)) \<or> k' \<in> set (on_isKeyPressed (trackers s' t))"
  then have "k' \<in> set (on_isMouseMoved (trackers s t)) \<or> k' \<in> set (on_isKeyPressed (trackers s t))"
    using destroy_lists(1,2) [OF assms(2)] by blast
  from wellformed_trackerD [OF assms(1) this]
  show "k' < nextKft s' \<and> globalInteractionTracker (kfts s' k') = t"
    by (auto simp: destroy_result(2,3) [OF assms(2)])
next
  fix r k'
  assume "k' \<in> set (on_focusedElement (focusTrackers s' r))"
  then have "k' \<in> set (on_focusedElement (focusTrackers s r))"
    using destroy_lists(3) [OF assms(2)] by blast
  from wellformed_focusD [OF assms(1) this]
  show "k' < nextKft s' \<and> focusTracker (kfts s' k') = r"
    by (auto simp: destroy_result(2,3) [OF assms(2)])
next
  assume "static_instance s' = None"
  then show "totalInstances s' \<le> 0"
    using assms(1) by (auto simp: destroy_result(5,6) [OF assms(2)] wellformed_def split: if_splits)
qed

lemma wellformed_step:
  assumes "wellformed s"
  shows "\<exists>s'. step a s = Inr s' \<and> wellformed s'"
proof (cases a)
  case (Destroy k)
  from assms have "static_instance s \<noteq> None \<or> totalInstances s \<noteq> 1"
    by (auto simp: wellformed_def)
  then obtain s' where "KeyboardFocusTracker_destroy k s = Inr s'"
    using destroy_returns by blast
  with assms Destroy show ?thesis by (auto intro: wellformed_destroy)
qed (use assms in \<open>simp_all add: wellformed_dispatchEvent wellformed_focus wellformed_construct\<close>)

lemma wellformed_run:
  assumes "wellformed s"
  shows "\<exists>s'. run as s = Inr s' \<and> wellformed s'"
  using assms
proof (induction as arbitrary: s)
  case Nil
  then show ?case by simp
next
  case (Cons a as)
  then obtain s1 where "step a s = Inr s1" "wellformed s1"
    using wellformed_step by blast
  with Cons.IH [of s1] show ?case by simp
qed

subsection \<open>A detached keyboard focus tracker stays detached\<close>

lemma detached_document_listener:
  assumes "detached k s"
  shows "detached k (document_listener ev t s)"
  using assms
  by (cases ev)
     (simp_all add: detached_def handleMouseMoved_def handleKeydown_def handleResetKeyPress_def
        set_isMouseMoved_eq set_isKeyPressed_eq)

lemma detached_dispatchEvent: "detached k s \<Longrightarrow> detached k (dispatchEvent ev s)"
  by (rule dispatchEvent_invariant) (rule detached_document_listener)

lemma detached_focus:
  "detached k s \<Longrightarrow> detached k (FocusTracker_focus r e s)"
  "detached k s \<Longrightarrow> detached k (FocusTracker_blur r s)"
  "detached k s \<Longrightarrow> detached k (FocusTracker_timeout r s)"
  by (simp_all add: detached_def FocusTracker_focus_def FocusTracker_blur_def
      FocusTracker_timeout_def Let_def upd_ft_def set_focusedElement_eq)

lemma detached_construct:
  assumes "detached k s"
  shows "detached k (snd (new_KeyboardFocusTracker r s))"
proof -
  let ?s' = "snd (new_KeyboardFocusTracker r s)"
  from assms have k: "k < nextKft s" by (simp add: detached_def)
  have "k \<notin> set (on_isMouseMoved (trackers ?s' t))" for t
    using construct_result(4) [of k r s t] assms k by (auto simp: detached_def)
  moreover have "k \<notin> set (on_isKeyPressed (trackers ?s' t))" for t
    using construct_result(5) [of k r s t] assms k by (auto simp: detached_def)
  moreover have "k \<notin> set (on_focusedElement (focusTrackers ?s' r'))" for r'
    using assms k by (auto simp: construct_result(6) detached_def)
  moreover have "\<not> isFocusedUsingKeyboard (kfts ?s' k)"
    using assms k by (simp add: construct_result(3) detached_def)
  ultimately show ?thesis
    using k by (simp add: detached_def construct_result(1))
qed

lemma detached_destroy:
  assumes "detached k s" and "KeyboardFocusTracker_destroy k' s = Inr s'"
  shows "detached k s'"
proof -
  have "k \<notin> set (on_isMouseMoved (trackers s' t))" for t
    using destroy_lists(1) [OF assms(2), of t] assms(1) by (auto simp: detached_def)
  moreover have "k \<notin> set (on_isKeyPressed (trackers s' t))" for t
    using destroy_lists(2) [OF assms(2), of t] assms(1) by (auto simp: detached_def)
  moreover have "k \<notin> set (on_focusedElement (focusTrackers s' r))" for r
    using destroy_lists(3) [OF assms(2), of r] assms(1) by (auto simp: detached_def)
  moreover have "\<not> isFocusedUsingKeyboard (kfts s' k)"
    using assms(1) by (simp add: destroy_result(2) [OF assms(2)] detached_def)
  ultimately show ?thesis
    using assms(1) by (simp add: detached_def destroy_result(3) [OF assms(2)])
qed

lemma detached_step:
  assumes "detached k s" and "step a s = Inr s'"
  shows "detached k s'"
  using assms
  by (cases a) (auto simp: detached_dispatchEvent detached_focus detached_construct
      intro: detached_destroy)

lemma detached_run:
  assumes "wellformed s" and "detached k s"
  shows "\<exists>s'. run as s = Inr s' \<and> detached k s'"
  using assms
proof (induction as arbitrary: s)
  case Nil
  then show ?case by simp
next
  case (Cons a as)
  from wellformed_step [OF Cons.prems(1), of a]
  obtain s1 where s1: "step a s = Inr s1" "wellformed s1" by blast
  with Cons.prems(2) have "detached k s1" by (simp add: detached_step)
  with Cons.IH [OF s1(2)] s1(1) show ?case by simp
qed

lemma destroy_detaches:
  assumes wf: "wellformed s" and k: "k < nextKft s"
    and destroy: "KeyboardFocusTracker_destroy k s = Inr s'"
  shows "detached k s'"
proof -
  have "k \<notin> set (on_isMouseMoved (trackers s' t)) \<and> k \<notin> set (on_isKeyPressed (trackers s' t))" for t
  proof (cases "t = globalInteractionTracker (kfts s k)")
    case True
    then show ?thesis by (simp add: destroy_result(7) [OF destroy])
  next
    case False
    with wellformed_trackerD(2) [OF wf, of k t]
    have "k \<notin> set (on_isMouseMoved (trackers s t)) \<and> k \<notin> set (on_isKeyPressed (trackers s t))"
      by blast
    then show ?thesis
      using destroy_lists(1,2) [OF destroy, of t] by blast
  qed
  moreover have "k \<notin> set (on_focusedElement (focusTrackers s' r))" for r
  proof (cases "r = focusTracker (kfts s k)")
    case True
    then show ?thesis by (simp add: destroy_result(1) [OF destroy])
  next
    case False
    with wellformed_focusD(2) [OF wf, of k r]
    have "k \<notin> set (on_focusedElement (focusTrackers s r))" by blast
    then show ?thesis using destroy_lists(3) [OF destroy, of r] by blast
  qed
  moreover have "\<not> isFocusedUsingKeyboard (kfts s' k)"
    by (simp add: destroy_result(2) [OF destroy])
  ultimately show ?thesis
    using k by (simp add: detached_def destroy_result(3) [OF destroy])
qed

section \<open>The claims\<close>

text \<open>
  C6. The document listeners of a mounted global tracker follow the table of the
  specification: \<open>keydown\<close> clears \<open>isMouseMoved\<close> and sets \<open>isKeyPressed\<close>, \<open>keyup\<close> clears
  both, the four mouse and pointer events set \<open>isMouseMoved\<close> and leave \<open>isKeyPressed\<close>,
  and any other event leaves every tracker as it was. A tracker whose listeners are not
  mounted is not changed by any event.
\<close>

theorem document_event_transitions:
  "(t \<in> set (document s) \<longrightarrow>
      signals (trackers (dispatchEvent ev s) t) = spec_transition ev (signals (trackers s t)))
   \<and> (t \<notin> set (document s) \<longrightarrow> trackers (dispatchEvent ev s) t = trackers s t)
   \<and> trackers (dispatchEvent (OtherEvent name) s) = trackers s"
proof (intro conjI impI)
  assume "t \<in> set (document s)"
  then show "signals (trackers (dispatchEvent ev s) t) = spec_transition ev (signals (trackers s t))"
    by (simp add: dispatchEvent_def trackers_fold_document_listener)
next
  assume "t \<notin> set (document s)"
  then show "trackers (dispatchEvent ev s) t = trackers s t"
    by (simp add: dispatchEvent_def trackers_fold_document_listener)
next
  show "trackers (dispatchEvent (OtherEvent name) s) = trackers s"
    by (rule ext)
       (simp add: dispatchEvent_def trackers_fold_document_listener with_signals_same
          spec_transition_other)
qed

text \<open>
  The table at work: on a page with one keyboard focus tracker, whose global tracker 0
  is mounted, a \<open>keydown\<close> sets the signals of tracker 0 to (true, false), and the
  unmounted tracker 1 is left alone.
\<close>

theorem document_event_transitions_witness:
  "0 \<in> set (document (snd (new_KeyboardFocusTracker 0 initial)))
   \<and> signals (trackers (dispatchEvent Keydown (snd (new_KeyboardFocusTracker 0 initial))) 0)
       = (True, False)
   \<and> 1 \<notin> set (document (snd (new_KeyboardFocusTracker 0 initial)))
   \<and> trackers (dispatchEvent Keydown (snd (new_KeyboardFocusTracker 0 initial))) 1
       = trackers (snd (new_KeyboardFocusTracker 0 initial)) 1"
  using document_event_transitions [of 0 "snd (new_KeyboardFocusTracker 0 initial)" Keydown]
    document_event_transitions [of 1 "snd (new_KeyboardFocusTracker 0 initial)" Keydown]
  by (simp add: model_defs)

text \<open>
  C1. A change notification of the focused element, delivered to the listeners of a
  focus tracker with the new focused element as payload, sets \<open>isFocusedUsingKeyboard\<close>
  of every listening keyboard focus tracker to: the payload is an element, and
  \<open>isMouseMoved\<close> of its global tracker is false, and \<open>isKeyPressed\<close> of its global tracker
  is true. Both signals are read when the notification fires, and the notification
  changes no global tracker. The same holds of the callback called on its own.
\<close>

theorem focus_change_rule:
  assumes "k \<in> set (on_focusedElement (focusTrackers s r))"
  shows "isFocusedUsingKeyboard (kfts (fire_focusedElement r focusedElem s) k)
           = (focusedElem \<noteq> None
              \<and> \<not> isMouseMoved (trackers s (globalInteractionTracker (kfts s k)))
              \<and> isKeyPressed (trackers s (globalInteractionTracker (kfts s k))))
         \<and> isFocusedUsingKeyboard (kfts (watchChangeFocusedElement k focusedElem s) k)
           = (focusedElem \<noteq> None
              \<and> \<not> isMouseMoved (trackers s (globalInteractionTracker (kfts s k)))
              \<and> isKeyPressed (trackers s (globalInteractionTracker (kfts s k))))
         \<and> trackers (fire_focusedElement r focusedElem s) = trackers s"
proof (intro conjI)
  show "isFocusedUsingKeyboard (kfts (fire_focusedElement r focusedElem s) k)
           = (focusedElem \<noteq> None
              \<and> \<not> isMouseMoved (trackers s (globalInteractionTracker (kfts s k)))
              \<and> isKeyPressed (trackers s (globalInteractionTracker (kfts s k))))"
    using assms by (simp add: fire_focusedElement_def fold_watchChangeFocusedElement)
next
  show "isFocusedUsingKeyboard (kfts (watchChangeFocusedElement k focusedElem s) k)
           = (focusedElem \<noteq> None
              \<and> \<not> isMouseMoved (trackers s (globalInteractionTracker (kfts s k)))
              \<and> isKeyPressed (trackers s (globalInteractionTracker (kfts s k))))"
    by (simp add: watchChangeFocusedElement_def upd_kft_def Let_def)
next
  show "trackers (fire_focusedElement r focusedElem s) = trackers s"
    by (simp add: fire_focusedElement_def fold_watchChangeFocusedElement)
qed

text \<open>
  After a \<open>keydown\<close> on a page with one keyboard focus tracker, a notification with the
  element 5 sets the flag and a notification without an element clears it.
\<close>

theorem focus_change_rule_witness:
  "0 \<in> set (on_focusedElement
       (focusTrackers (dispatchEvent Keydown (snd (new_KeyboardFocusTracker 0 initial))) 0))
   \<and> isFocusedUsingKeyboard
       (kfts (fire_focusedElement 0 (Some 5)
          (dispatchEvent Keydown (snd (new_KeyboardFocusTracker 0 initial)))) 0)
   \<and> \<not> isFocusedUsingKeyboard
       (kfts (fire_focusedElement 0 None
          (dispatchEvent Keydown (snd (new_KeyboardFocusTracker 0 initial)))) 0)"
  using focus_change_rule [of 0 "dispatchEvent Keydown (snd (new_KeyboardFocusTracker 0 initial))" 0 "Some 5"]
    focus_change_rule [of 0 "dispatchEvent Keydown (snd (new_KeyboardFocusTracker 0 initial))" 0 None]
  by (simp add: model_defs)

text \<open>
  C10. Falling edges leave \<open>isFocusedUsingKeyboard\<close> as it is: the two callbacks of the
  global tracker do nothing when called with the value false, so a notification that
  \<open>isKeyPressed\<close> or \<open>isMouseMoved\<close> became false changes nothing, an assignment of false
  to either signal changes no keyboard focus tracker, and neither does a \<open>keyup\<close>
  delivered to the document.
\<close>

theorem falling_edges_keep_attribution:
  "watchIsKeyPressed k False s = s \<and> watchMouseMoved k False s = s
   \<and> fire_isKeyPressed t False s = s \<and> fire_isMouseMoved t False s = s
   \<and> kfts (set_isKeyPressed t False s) = kfts s
   \<and> kfts (set_isMouseMoved t False s) = kfts s
   \<and> kfts (dispatchEvent Keyup s) = kfts s"
proof -
  have "kfts (dispatchEvent Keyup s) = kfts s"
    by (rule dispatchEvent_invariant [where P = "\<lambda>s'. kfts s' = kfts s"])
       (simp_all add: kfts_handleResetKeyPress)
  then show ?thesis
    by (simp add: watchIsKeyPressed_def watchMouseMoved_def fire_isKeyPressed_def
        fire_isMouseMoved_def fold_watchMouseMoved fold_watchIsKeyPressed
        set_isMouseMoved_eq set_isKeyPressed_eq)
qed

text \<open>
  Keyboard attribution set up during a key hold is still there after the \<open>keyup\<close>.
\<close>

theorem falling_edges_keep_attribution_witness:
  "isFocusedUsingKeyboard
     (kfts (FocusTracker_focus 0 5 (dispatchEvent Keydown (snd (new_KeyboardFocusTracker 0 initial)))) 0)
   \<and> isFocusedUsingKeyboard
     (kfts (dispatchEvent Keyup
        (FocusTracker_focus 0 5 (dispatchEvent Keydown (snd (new_KeyboardFocusTracker 0 initial))))) 0)"
  using falling_edges_keep_attribution
    [of 0 "FocusTracker_focus 0 5 (dispatchEvent Keydown (snd (new_KeyboardFocusTracker 0 initial)))" 0]
  by (simp add: model_defs)

text \<open>
  The rule on mouse movement where it is heard. When a mouse or pointer enter or leave
  event reaches a mounted global tracker whose \<open>isMouseMoved\<close> is false, the signal
  becomes true and \<open>isFocusedUsingKeyboard\<close> of every keyboard focus tracker registered
  for that signal is false afterwards, whatever the focused element is and whether or
  not a key is pressed.
\<close>

lemma mouse_moved_cancels:
  assumes ev: "mouse_or_pointer ev"
    and mounted: "t \<in> set (document s)"
    and edge: "\<not> isMouseMoved (trackers s t)"
    and listening: "k \<in> set (on_isMouseMoved (trackers s t))"
  shows "isMouseMoved (trackers (dispatchEvent ev s) t)
         \<and> \<not> isFocusedUsingKeyboard (kfts (dispatchEvent ev s) k)
         \<and> \<not> isFocusedUsingKeyboard (kfts (watchMouseMoved k True s) k)"
proof (intro conjI)
  have "signals (trackers (dispatchEvent ev s) t) = spec_transition ev (signals (trackers s t))"
    using mounted by (simp add: dispatchEvent_def trackers_fold_document_listener)
  then show "isMouseMoved (trackers (dispatchEvent ev s) t)"
    using ev by (auto simp: signals_def mouse_or_pointer_def)
next
  let ?pre = "\<lambda>s'. trackers s' t = trackers s t"
  let ?post = "\<lambda>s'. \<not> isFocusedUsingKeyboard (kfts s' k)"
  have est: "?post (document_listener ev t s')" if "?pre s'" for s'
    using that edge listening by (simp add: document_listener_mouse [OF ev] set_isMouseMoved_eq)
  have keep_pre: "?pre (document_listener ev t' s')" if "t' \<noteq> t" "?pre s'" for t' s'
    using that by (simp add: trackers_document_listener)
  have keep_post: "?post (document_listener ev t' s')" if "?post s'" for t' s'
    using that by (simp add: document_listener_mouse [OF ev] set_isMouseMoved_eq)
  have "?post (fold (document_listener ev) (document s) s)"
  proof (rule fold_reaches [where pre = ?pre and post = ?post and t = t])
    show "?pre s" by simp
  qed (rule est keep_pre keep_post mounted; assumption)+
  then show "\<not> isFocusedUsingKeyboard (kfts (dispatchEvent ev s) k)"
    by (simp add: dispatchEvent_def)
next
  show "\<not> isFocusedUsingKeyboard (kfts (watchMouseMoved k True s) k)"
    by (simp add: watchMouseMoved_def upd_kft_def)
qed


text \<open>
  The rule on key presses where it is heard. When a \<open>keydown\<close> reaches a mounted global
  tracker whose \<open>isKeyPressed\<close> is false, the signal becomes true and
  \<open>isFocusedUsingKeyboard\<close> of every keyboard focus tracker registered for that signal
  becomes the current \<open>isFocused\<close> of the focus tracker it was given.
\<close>

lemma key_pressed_attributes_focus:
  assumes mounted: "t \<in> set (document s)"
    and edge: "\<not> isKeyPressed (trackers s t)"
    and listening: "k \<in> set (on_isKeyPressed (trackers s t))"
  shows "isKeyPressed (trackers (dispatchEvent Keydown s) t)
         \<and> isFocusedUsingKeyboard (kfts (dispatchEvent Keydown s) k)
             = isFocused (focusTrackers s (focusTracker (kfts s k)))
         \<and> isFocusedUsingKeyboard (kfts (watchIsKeyPressed k True s) k)
             = isFocused (focusTrackers s (focusTracker (kfts s k)))"
proof (intro conjI)
  have "signals (trackers (dispatchEvent Keydown s) t) = spec_transition Keydown (signals (trackers s t))"
    using mounted by (simp add: dispatchEvent_def trackers_fold_document_listener)
  then show "isKeyPressed (trackers (dispatchEvent Keydown s) t)"
    by (simp add: signals_def)
next
  let ?focused = "isFocused (focusTrackers s (focusTracker (kfts s k)))"
  let ?frame = "\<lambda>s'. focusTrackers s' = focusTrackers s
                  \<and> focusTracker (kfts s' k) = focusTracker (kfts s k)"
  let ?pre = "\<lambda>s'. trackers s' t = trackers s t \<and> ?frame s'"
  let ?post = "\<lambda>s'. isFocusedUsingKeyboard (kfts s' k) = ?focused \<and> ?frame s'"
  have est: "?post (document_listener Keydown t s')" if "?pre s'" for s'
    using that edge listening
    by (simp add: handleKeydown_def set_isMouseMoved_eq set_isKeyPressed_eq)
  have keep_pre: "?pre (document_listener Keydown t' s')" if "t' \<noteq> t" "?pre s'" for t' s'
    using that
    by (simp add: trackers_document_listener document_listener_frame
        kfts_document_listener_fields del: document_listener.simps)
  have keep_post: "?post (document_listener Keydown t' s')" if "?post s'" for t' s'
    using that by (simp add: handleKeydown_def set_isMouseMoved_eq set_isKeyPressed_eq)
  have "?post (fold (document_listener Keydown) (document s) s)"
  proof (rule fold_reaches [where pre = ?pre and post = ?post and t = t])
    show "?pre s" by simp
  qed (rule est keep_pre keep_post mounted; assumption)+
  then show "isFocusedUsingKeyboard (kfts (dispatchEvent Keydown s) k) = ?focused"
    by (simp add: dispatchEvent_def)
next
  show "isFocusedUsingKeyboard (kfts (watchIsKeyPressed k True s) k)
          = isFocused (focusTrackers s (focusTracker (kfts s k)))"
    by (simp add: watchIsKeyPressed_def upd_kft_def)
qed

text \<open>
  C5. The rule does not hold in every state of a live keyboard focus tracker, for the
  same reason. After two constructions and the destruction of the first keyboard focus
  tracker, element 5 gains the focus with no key involved; the flag of the second
  keyboard focus tracker is false, and a \<open>keydown\<close> leaves it false and \<open>isKeyPressed\<close> of
  its global tracker false. The keyboard focus tracker of a third construct and destroy
  cycle is handed the unmounted tracker left in the slot: it is registered for
  \<open>change:isKeyPressed\<close>, element 5 has the focus, and a \<open>keydown\<close> leaves its flag false.
\<close>

theorem survivor_misses_keydown:
  "(\<exists>s. run [Construct 0, Construct 0, Destroy 0, Focus 0 5] initial = Inr s
       \<and> 1 \<in> set (on_focusedElement (focusTrackers s 0))
       \<and> totalInstances s = 1
       \<and> isFocused (focusTrackers s (focusTracker (kfts s 1)))
       \<and> \<not> isFocusedUsingKeyboard (kfts s 1)
       \<and> \<not> isFocusedUsingKeyboard (kfts (dispatchEvent Keydown s) 1)
       \<and> \<not> isKeyPressed (trackers (dispatchEvent Keydown s) (globalInteractionTracker (kfts s 1))))
   \<and> (\<exists>s. run [Construct 0, Destroy 0, Construct 0, Destroy 1, Construct 0, Focus 0 5] initial = Inr s
       \<and> 2 \<in> set (on_focusedElement (focusTrackers s 0))
       \<and> 2 \<in> set (on_isKeyPressed (trackers s (globalInteractionTracker (kfts s 2))))
       \<and> isFocused (focusTrackers s (focusTracker (kfts s 2)))
       \<and> \<not> isFocusedUsingKeyboard (kfts s 2)
       \<and> \<not> isFocusedUsingKeyboard (kfts (dispatchEvent Keydown s) 2)
       \<and> \<not> isKeyPressed (trackers (dispatchEvent Keydown s) (globalInteractionTracker (kfts s 2))))"
  by (simp add: model_defs)

text \<open>
  C8. As the claim is written, only a \<open>keyup\<close> may not come between the \<open>keydown\<close> and
  the focus event. The callback also requires \<open>isMouseMoved\<close> to be false, so a mouse or
  pointer event in between defeats the claim: after \<open>keydown\<close>, \<open>mouseenter\<close> and a focus
  event on element 5, with no \<open>keyup\<close>, the key is still pressed, element 5 is the
  focused element and \<open>isFocusedUsingKeyboard\<close> is false.
\<close>

theorem keydown_mouse_focus_counterexample:
  "isKeyPressed (trackers (dispatchEvent Mouseenter
       (dispatchEvent Keydown (snd (new_KeyboardFocusTracker 0 initial)))) 0)
   \<and> focusedElement (focusTrackers (FocusTracker_focus 0 5 (dispatchEvent Mouseenter
       (dispatchEvent Keydown (snd (new_KeyboardFocusTracker 0 initial))))) 0) = Some 5
   \<and> \<not> isFocusedUsingKeyboard (kfts (FocusTracker_focus 0 5 (dispatchEvent Mouseenter
       (dispatchEvent Keydown (snd (new_KeyboardFocusTracker 0 initial))))) 0)"
  by (simp add: model_defs)

text \<open>
  C8, amended. Let the keyboard focus tracker \<open>k\<close> listen to the focus tracker \<open>r\<close> and
  let its global tracker be mounted. After a \<open>keydown\<close>, followed by any steps among which
  there is no \<open>keyup\<close> and no mouse or pointer enter or leave event, a focus event that
  changes the focused element of \<open>r\<close> leaves \<open>isFocusedUsingKeyboard\<close> of \<open>k\<close> true.
\<close>

theorem keydown_then_focus:
  assumes listening: "k \<in> set (on_focusedElement (focusTrackers s r))"
    and mounted: "globalInteractionTracker (kfts s k) \<in> set (document s)"
    and between: "list_all quiet between"
    and run: "run (Dom Keydown # between) s = Inr s'"
    and changes: "focusedElement (focusTrackers s' r) \<noteq> Some e"
  shows "isFocusedUsingKeyboard (kfts (FocusTracker_focus r e s') k)"
proof -
  have "key_held k r (dispatchEvent Keydown s)"
    using listening mounted by (rule key_held_after_keydown)
  then obtain s2 where "run between (dispatchEvent Keydown s) = Inr s2" and "key_held k r s2"
    using key_held_quiet_run between by blast
  with run have "key_held k r s'" by simp
  then show ?thesis using changes by (rule focus_when_key_held)
qed

text \<open>
  A \<open>keydown\<close>, then a click, a focus on element 4, a blur and a repeated \<open>keydown\<close>, then
  the focus event on element 5.
\<close>

theorem keydown_then_focus_witness:
  "0 \<in> set (on_focusedElement (focusTrackers (snd (new_KeyboardFocusTracker 0 initial)) 0))
   \<and> globalInteractionTracker (kfts (snd (new_KeyboardFocusTracker 0 initial)) 0)
       \<in> set (document (snd (new_KeyboardFocusTracker 0 initial)))
   \<and> list_all quiet [Dom (OtherEvent ''click''), Focus 0 4, Blur 0, Dom Keydown]
   \<and> run (Dom Keydown # [Dom (OtherEvent ''click''), Focus 0 4, Blur 0, Dom Keydown])
        (snd (new_KeyboardFocusTracker 0 initial))
      = Inr (dispatchEvent Keydown (FocusTracker_blur 0 (FocusTracker_focus 0 4
          (dispatchEvent (OtherEvent ''click'')
            (dispatchEvent Keydown (snd (new_KeyboardFocusTracker 0 initial)))))))
   \<and> isFocusedUsingKeyboard
       (kfts (FocusTracker_focus 0 5
          (dispatchEvent Keydown (FocusTracker_blur 0 (FocusTracker_focus 0 4
            (dispatchEvent (OtherEvent ''click'')
              (dispatchEvent Keydown (snd (new_KeyboardFocusTracker 0 initial)))))))) 0)"
  using keydown_then_focus [of 0 "snd (new_KeyboardFocusTracker 0 initial)" 0
      "[Dom (OtherEvent ''click''), Focus 0 4, Blur 0, Dom Keydown]"
      "dispatchEvent Keydown (FocusTracker_blur 0 (FocusTracker_focus 0 4
          (dispatchEvent (OtherEvent ''click'')
            (dispatchEvent Keydown (snd (new_KeyboardFocusTracker 0 initial))))))" 5]
  by (simp add: model_defs mouse_or_pointer_def)

text \<open>
  C9. As the claim is written, only mouse and pointer events and a \<open>keyup\<close> may not come
  between the four events. The focus tracker answers a blur on its next timer tick, and
  the notification it then sends carries no element, so a tick between the blur and the
  second focus defeats the claim: after \<open>keydown\<close>, focus of element 4 and blur the flag is
  true; after the tick the key is still pressed, no mouse has moved, and the flag is
  false.
\<close>

theorem blur_timer_tick_counterexample:
  "isFocusedUsingKeyboard
     (kfts (FocusTracker_blur 0 (FocusTracker_focus 0 4
        (dispatchEvent Keydown (snd (new_KeyboardFocusTracker 0 initial))))) 0)
   \<and> isKeyPressed
     (trackers (FocusTracker_timeout 0 (FocusTracker_blur 0 (FocusTracker_focus 0 4
        (dispatchEvent Keydown (snd (new_KeyboardFocusTracker 0 initial)))))) 0)
   \<and> \<not> isMouseMoved
     (trackers (FocusTracker_timeout 0 (FocusTracker_blur 0 (FocusTracker_focus 0 4
        (dispatchEvent Keydown (snd (new_KeyboardFocusTracker 0 initial)))))) 0)
   \<and> \<not> isFocusedUsingKeyboard
     (kfts (FocusTracker_timeout 0 (FocusTracker_blur 0 (FocusTracker_focus 0 4
        (dispatchEvent Keydown (snd (new_KeyboardFocusTracker 0 initial)))))) 0)"
  by (simp add: model_defs)

text \<open>
  C9, amended. In a state that a run from the initial state reaches, let the keyboard
  focus tracker \<open>k\<close> listen to the focus tracker \<open>r\<close> and let its global tracker be mounted.
  In a sequence \<open>keydown\<close>, focus of \<open>a\<close> (which gains the focus), blur, focus of \<open>b\<close>, with
  any document events other than \<open>keyup\<close> and mouse or pointer events in between, and any
  timer ticks of focus trackers but a tick of \<open>r\<close> between the blur and the second
  focus, \<open>isFocusedUsingKeyboard\<close> of \<open>k\<close> is true at every point after the first focus
  event: \<open>p\<close> is any initial part of what follows the first focus event, so the points
  between the blur and the second focus are among them.
\<close>

theorem focus_switch_keeps_attribution:
  assumes reached: "run history initial = Inr s"
    and listening: "k \<in> set (on_focusedElement (focusTrackers s r))"
    and mounted: "globalInteractionTracker (kfts s k) \<in> set (document s)"
    and gains: "focusedElement (focusTrackers s r) \<noteq> Some a"
    and between: "list_all harmless i1" "list_all harmless i2" "list_all (harmless_but r) i3"
      "list_all harmless i4"
    and point: "p @ rest = i2 @ Blur r # i3 @ Focus r b # i4"
  shows "\<exists>s'. run (Dom Keydown # i1 @ Focus r a # p) s = Inr s'
           \<and> isFocusedUsingKeyboard (kfts s' k)"
proof -
  from wellformed_run [OF wellformed_initial, of history] reached
  have wf: "wellformed s" by simp
  have own: "focusTracker (kfts s k) = r"
    using wf listening by (rule wellformed_focusD)
  have only: "only_at k r s"
    unfolding only_at_def using wellformed_focusD(2) [OF wf] own by blast
  let ?s1 = "dispatchEvent Keydown s"
  have "key_held k r ?s1"
    using listening mounted by (rule key_held_after_keydown)
  then have "awaiting k r a ?s1"
    using own only gains by (simp add: awaiting_def only_at_dispatchEvent dispatchEvent_frame)
  then obtain s2 where s2: "run i1 ?s1 = Inr s2" "awaiting k r a s2"
    using awaiting_harmless_run between(1) by blast
  let ?s3 = "FocusTracker_focus r a s2"
  from s2(2) have held: "key_held k r s2" and own2: "focusTracker (kfts s2 k) = r"
    and only2: "only_at k r s2" and gains2: "focusedElement (focusTrackers s2 r) \<noteq> Some a"
    by (simp_all add: awaiting_def)
  have "isFocusedUsingKeyboard (kfts ?s3 k)"
    using held gains2 by (rule focus_when_key_held)
  moreover have "key_held k r ?s3"
    using held by (simp add: key_held_def FocusTracker_frame)
  moreover have "isFocused (focusTrackers ?s3 r)"
    by (simp add: FocusTracker_focus_def Let_def upd_ft_def set_focusedElement_eq)
  ultimately have "attributed k r ?s3"
    using own2 by (simp add: attributed_def FocusTracker_frame)
  then have hold: "holding k r False ?s3"
    using only2 by (simp add: holding_def only_at_focus blurTimeout_frame)
  have "calm r False (i2 @ Blur r # i3 @ Focus r b # i4)"
    using between(2-4) calm_harmless_append [of i4 r "[]"]
    by (simp add: calm_harmless_append calm_harmless_but_append)
  then have "calm r False p"
    unfolding point [symmetric] by (rule calm_prefix)
  from holding_calm_run [OF this hold]
  obtain s4 where "run p ?s3 = Inr s4" "attributed k r s4" by blast
  then show ?thesis
    using s2(1) by (auto simp: run_append attributed_def)
qed

text \<open>
  With timer ticks before the blur, a tick of another focus tracker after it and a
  repeated \<open>keydown\<close>, the flag is true before the focus of element 5 and after it.
\<close>

theorem focus_switch_keeps_attribution_witness:
  "run [Construct 0] initial = Inr (snd (new_KeyboardFocusTracker 0 initial))
   \<and> 0 \<in> set (on_focusedElement (focusTrackers (snd (new_KeyboardFocusTracker 0 initial)) 0))
   \<and> globalInteractionTracker (kfts (snd (new_KeyboardFocusTracker 0 initial)) 0)
       \<in> set (document (snd (new_KeyboardFocusTracker 0 initial)))
   \<and> focusedElement (focusTrackers (snd (new_KeyboardFocusTracker 0 initial)) 0) \<noteq> Some 4
   \<and> list_all harmless [Timeout 0, Dom Keydown]
   \<and> list_all (harmless_but 0) [Timeout 1]
   \<and> (\<exists>s'. run [Dom Keydown, Timeout 0, Focus 0 4, Timeout 0, Dom Keydown, Blur 0, Timeout 1]
               (snd (new_KeyboardFocusTracker 0 initial)) = Inr s'
          \<and> isFocusedUsingKeyboard (kfts s' 0))
   \<and> (\<exists>s'. run [Dom Keydown, Timeout 0, Focus 0 4, Timeout 0, Dom Keydown, Blur 0, Timeout 1,
                    Focus 0 5, Timeout 0]
               (snd (new_KeyboardFocusTracker 0 initial)) = Inr s'
          \<and> isFocusedUsingKeyboard (kfts s' 0))"
proof -
  let ?s = "snd (new_KeyboardFocusTracker 0 initial)"
  have reached: "run [Construct 0] initial = Inr ?s" by simp
  have listening: "0 \<in> set (on_focusedElement (focusTrackers ?s 0))"
    and mounted: "globalInteractionTracker (kfts ?s 0) \<in> set (document ?s)"
    and gains: "focusedElement (focusTrackers ?s 0) \<noteq> Some 4"
    by (simp_all add: model_defs)
  have i1: "list_all harmless [Timeout 0]" and i2: "list_all harmless [Timeout 0, Dom Keydown]"
    and i3: "list_all (harmless_but 0) [Timeout 1]" and i4: "list_all harmless [Timeout 0]"
    by (simp_all add: mouse_or_pointer_def)
  have "\<exists>s'. run (Dom Keydown # [Timeout 0] @ Focus 0 4 # [Timeout 0, Dom Keydown, Blur 0, Timeout 1]) ?s
          = Inr s' \<and> isFocusedUsingKeyboard (kfts s' 0)"
    by (rule focus_switch_keeps_attribution [OF reached listening mounted gains i1 i2 i3 i4,
          where rest = "[Focus 0 5, Timeout 0]" and b = 5]) simp
  moreover
  have "\<exists>s'. run (Dom Keydown # [Timeout 0] @ Focus 0 4
              # [Timeout 0, Dom Keydown, Blur 0, Timeout 1, Focus 0 5, Timeout 0]) ?s
          = Inr s' \<and> isFocusedUsingKeyboard (kfts s' 0)"
    by (rule focus_switch_keeps_attribution [OF reached listening mounted gains i1 i2 i3 i4,
          where rest = "[]" and b = 5]) simp
  ultimately show ?thesis
    using reached listening mounted gains i2 i3 by simp
qed

text \<open>
  C3. In every state that a run from the initial state reaches, \<open>destroy\<close> of a
  constructed keyboard focus tracker \<open>k\<close> returns. Afterwards no callback of \<open>k\<close> is
  registered for \<open>change:isMouseMoved\<close> or \<open>change:isKeyPressed\<close> of any global tracker or for
  \<open>change:focusedElement\<close> of any focus tracker; the counter of the global tracker has
  been decremented; \<open>isFocusedUsingKeyboard\<close> of \<open>k\<close> is false; every focus tracker has
  the focused element, the \<open>isFocused\<close> flag and the pending blur it had, and has lost
  no listener but the callback of \<open>k\<close>; and whatever steps follow, document events
  among them, \<open>isFocusedUsingKeyboard\<close> of \<open>k\<close> stays false.
\<close>

theorem destroy_unsubscribes_and_resets:
  assumes reached: "run history initial = Inr s"
    and constructed: "k < nextKft s"
  shows "\<exists>s'. KeyboardFocusTracker_destroy k s = Inr s'
           \<and> (\<forall>t. k \<notin> set (on_isMouseMoved (trackers s' t))
                  \<and> k \<notin> set (on_isKeyPressed (trackers s' t)))
           \<and> (\<forall>r. k \<notin> set (on_focusedElement (focusTrackers s' r)))
           \<and> totalInstances s' < totalInstances s
           \<and> \<not> isFocusedUsingKeyboard (kfts s' k)
           \<and> (\<forall>r. focusedElement (focusTrackers s' r) = focusedElement (focusTrackers s r)
                  \<and> isFocused (focusTrackers s' r) = isFocused (focusTrackers s r)
                  \<and> blurTimeout (focusTrackers s' r) = blurTimeout (focusTrackers s r)
                  \<and> on_focusedElement (focusTrackers s' r)
                      = removeAll k (on_focusedElement (focusTrackers s r)))
           \<and> (\<forall>future. \<exists>s''. run future s' = Inr s''
                  \<and> \<not> isFocusedUsingKeyboard (kfts s'' k))"
proof -
  from wellformed_run [OF wellformed_initial, of history] reached
  have wf: "wellformed s" by simp
  then have "static_instance s \<noteq> None \<or> totalInstances s \<noteq> 1"
    by (auto simp: wellformed_def)
  then obtain s' where destroy: "KeyboardFocusTracker_destroy k s = Inr s'"
    using destroy_returns by blast
  have wf': "wellformed s'"
    using wf destroy by (rule wellformed_destroy)
  have det: "detached k s'"
    using wf constructed destroy by (rule destroy_detaches)
  have count: "totalInstances s' < totalInstances s"
    by (simp add: destroy_result(5) [OF destroy])
  have untouched: "focusedElement (focusTrackers s' r) = focusedElement (focusTrackers s r)
      \<and> isFocused (focusTrackers s' r) = isFocused (focusTrackers s r)
      \<and> blurTimeout (focusTrackers s' r) = blurTimeout (focusTrackers s r)
      \<and> on_focusedElement (focusTrackers s' r) = removeAll k (on_focusedElement (focusTrackers s r))"
    for r
  proof (cases "r = focusTracker (kfts s k)")
    case True
    then show ?thesis by (simp add: destroy_result(1) [OF destroy])
  next
    case False
    with wellformed_focusD(2) [OF wf, of k r]
    have "k \<notin> set (on_focusedElement (focusTrackers s r))" by blast
    with False show ?thesis by (simp add: destroy_result(1) [OF destroy])
  qed
  have later: "\<exists>s''. run future s' = Inr s'' \<and> \<not> isFocusedUsingKeyboard (kfts s'' k)" for future
    using detached_run [OF wf' det, of future] by (auto simp: detached_def)
  from det have "\<forall>t. k \<notin> set (on_isMouseMoved (trackers s' t))
                  \<and> k \<notin> set (on_isKeyPressed (trackers s' t))"
    and "\<forall>r. k \<notin> set (on_focusedElement (focusTrackers s' r))"
    and "\<not> isFocusedUsingKeyboard (kfts s' k)"
    by (simp_all add: detached_def)
  with destroy count untouched later show ?thesis by blast
qed

text \<open>
  A keyboard focus tracker with keyboard focus on element 5 is destroyed; its flag is
  false, element 5 is still the focused element of the focus tracker, and a later
  \<open>keyup\<close>, \<open>keydown\<close> and focus change leave the flag false.
\<close>

theorem destroy_unsubscribes_and_resets_witness:
  "run [Construct 0, Dom Keydown, Focus 0 5] initial
     = Inr (FocusTracker_focus 0 5 (dispatchEvent Keydown (snd (new_KeyboardFocusTracker 0 initial))))
   \<and> 0 < nextKft (FocusTracker_focus 0 5 (dispatchEvent Keydown (snd (new_KeyboardFocusTracker 0 initial))))
   \<and> isFocusedUsingKeyboard
       (kfts (FocusTracker_focus 0 5 (dispatchEvent Keydown (snd (new_KeyboardFocusTracker 0 initial)))) 0)
   \<and> (\<exists>s'. KeyboardFocusTracker_destroy 0
               (FocusTracker_focus 0 5 (dispatchEvent Keydown (snd (new_KeyboardFocusTracker 0 initial))))
             = Inr s'
          \<and> \<not> isFocusedUsingKeyboard (kfts s' 0)
          \<and> focusedElement (focusTrackers s' 0) = Some 5
          \<and> (\<exists>s''. run [Dom Keyup, Dom Keydown, Focus 0 6] s' = Inr s''
                 \<and> \<not> isFocusedUsingKeyboard (kfts s'' 0)))"
proof -
  let ?s = "FocusTracker_focus 0 5 (dispatchEvent Keydown (snd (new_KeyboardFocusTracker 0 initial)))"
  have reached: "run [Construct 0, Dom Keydown, Focus 0 5] initial = Inr ?s"
    by simp
  have constructed: "0 < nextKft ?s"
    by (simp add: model_defs)
  have before: "isFocusedUsingKeyboard (kfts ?s 0)" "focusedElement (focusTrackers ?s 0) = Some 5"
    by (simp_all add: model_defs)
  from destroy_unsubscribes_and_resets [OF reached constructed]
  obtain s' where "KeyboardFocusTracker_destroy 0 ?s = Inr s'"
    and "\<not> isFocusedUsingKeyboard (kfts s' 0)"
    and "focusedElement (focusTrackers s' 0) = focusedElement (focusTrackers ?s 0)"
    and "\<exists>s''. run [Dom Keyup, Dom Keydown, Focus 0 6] s' = Inr s''
           \<and> \<not> isFocusedUsingKeyboard (kfts s'' 0)"
    by blast
  with reached constructed before show ?thesis by simp
qed

text \<open>
  Constructing keyboard focus trackers mounts the document listeners once: after any
  number of constructions from the initial state, tracker 0 is the only mounted
  tracker, it is in the slot, and the counter is the number of constructions.
\<close>

lemma constructs_mount_once:
  assumes "rs \<noteq> []"
  shows "\<exists>s. run (map Construct rs) initial = Inr s
           \<and> document s = [0] \<and> static_instance s = Some 0
           \<and> totalInstances s = int (length rs)"
  using assms
proof (induction rs rule: rev_induct)
  case Nil
  then show ?case by simp
next
  case (snoc r rs)
  show ?case
  proof (cases "rs = []")
    case True
    then show ?thesis by (simp add: model_defs)
  next
    case False
    with snoc.IH obtain s where "run (map Construct rs) initial = Inr s"
      "document s = [0]" "static_instance s = Some 0" "totalInstances s = int (length rs)"
      by blast
    then show ?thesis
      by (simp add: run_append new_KeyboardFocusTracker_def new_GlobalTracker_def Let_def
          upd_tracker_def upd_ft_def)
  qed
qed

text \<open>
  C2, at two keyboard focus trackers. \<open>destroy\<close> of the global tracker stops the document
  listeners and drops the change listeners before it looks at the counter. After two
  constructions and the destruction of the first keyboard focus tracker the counter is
  1 and tracker 0 is still in the slot, but no document listener is mounted and the
  second keyboard focus tracker is no longer registered: a \<open>keydown\<close> does not set
  \<open>isKeyPressed\<close>.
\<close>

theorem destroying_one_of_two_unmounts:
  "(\<exists>s. run [Construct 0, Construct 0] initial = Inr s
        \<and> document s = [0] \<and> static_instance s = Some 0 \<and> totalInstances s = 2
        \<and> globalInteractionTracker (kfts s 0) = 0 \<and> globalInteractionTracker (kfts s 1) = 0)
   \<and> (\<exists>s. run [Construct 0, Construct 0, Destroy 0] initial = Inr s
        \<and> document s = [] \<and> static_instance s = Some 0 \<and> totalInstances s = 1
        \<and> on_isKeyPressed (trackers s 0) = [] \<and> on_isMouseMoved (trackers s 0) = []
        \<and> \<not> isKeyPressed (trackers (dispatchEvent Keydown s) 0))"
  by (simp add: model_defs)

text \<open>
  C7, over three cycles. The first release takes the counter from 1 to 0, calls
  \<open>destroy\<close> on the object in the slot, which decrements the counter again, and clears
  the slot: the counter is left at -1. The second acquire creates a fresh tracker 1 with
  the counter at 0; the second release takes the counter to -1, not to 0, so the slot
  keeps tracker 1 although its document listeners are gone. The third acquire returns
  tracker 1: no document listener is mounted, and a \<open>keydown\<close> does not set \<open>isKeyPressed\<close>.
\<close>

theorem third_acquire_returns_stale_instance:
  "(\<exists>s. run [Construct 0, Destroy 0] initial = Inr s
        \<and> document s = [] \<and> static_instance s = None \<and> totalInstances s = - 1)
   \<and> (\<exists>s. run [Construct 0, Destroy 0, Construct 0, Destroy 1] initial = Inr s
        \<and> document s = [] \<and> static_instance s = Some 1 \<and> totalInstances s = - 1)
   \<and> (\<exists>s. run [Construct 0, Destroy 0, Construct 0, Destroy 1, Construct 0] initial = Inr s
        \<and> document s = [] \<and> static_instance s = Some 1 \<and> totalInstances s = 0
        \<and> globalInteractionTracker (kfts s 2) = 1
        \<and> \<not> isKeyPressed (trackers (dispatchEvent Keydown s) 1))"
  by (simp add: model_defs)

end
